theory Spec2Isabelle
  imports Main
begin

section \<open>Status codes of micro-module.h\<close>

text \<open>The \<^verbatim>\<open>#define\<close>d return codes (lines 152-164). The C type is \<^verbatim>\<open>int\<close>; no
  arithmetic is ever done on a status, so it is modelled as an unbounded integer.\<close>

definition MICRO_MODULE_OK :: int where
  "MICRO_MODULE_OK = 0"
definition MICRO_MODULE_ERROR_IS_NULL :: int where
  "MICRO_MODULE_ERROR_IS_NULL = - 1"
definition MICRO_MODULE_ERROR_OPEN_MODULES_DIR :: int where
  "MICRO_MODULE_ERROR_OPEN_MODULES_DIR = - 2"
definition MICRO_MODULE_ERROR_CLOSE_MODULES_DIR :: int where
  "MICRO_MODULE_ERROR_CLOSE_MODULES_DIR = - 3"
definition MICRO_MODULE_ERROR_LOCATING_INIT_SYMBOL :: int where
  "MICRO_MODULE_ERROR_LOCATING_INIT_SYMBOL = - 4"
definition MICRO_MODULE_ERROR_LOCATING_EXIT_SYMBOL :: int where
  "MICRO_MODULE_ERROR_LOCATING_EXIT_SYMBOL = - 5"
definition MICRO_MODULE_ERROR_LOCATING_NAME_SYMBOL :: int where
  "MICRO_MODULE_ERROR_LOCATING_NAME_SYMBOL = - 6"
definition MICRO_MODULE_ERROR_OPENING_MODULE :: int where
  "MICRO_MODULE_ERROR_OPENING_MODULE = - 7"
definition MICRO_MODULE_ERROR_CLOSING_MODULE :: int where
  "MICRO_MODULE_ERROR_CLOSING_MODULE = - 8"
definition MICRO_MODULE_ERROR_ALLOCATING_MEMORY :: int where
  "MICRO_MODULE_ERROR_ALLOCATING_MEMORY = - 9"
definition MICRO_MODULE_ERROR_MODULE_NOT_REGISTERED :: int where
  "MICRO_MODULE_ERROR_MODULE_NOT_REGISTERED = - 10"
definition MICRO_MODULE_ERROR_ARG_NULL :: int where
  "MICRO_MODULE_ERROR_ARG_NULL = - 11"

lemmas status_defs =
  MICRO_MODULE_OK_def MICRO_MODULE_ERROR_IS_NULL_def
  MICRO_MODULE_ERROR_OPEN_MODULES_DIR_def MICRO_MODULE_ERROR_CLOSE_MODULES_DIR_def
  MICRO_MODULE_ERROR_LOCATING_INIT_SYMBOL_def MICRO_MODULE_ERROR_LOCATING_EXIT_SYMBOL_def
  MICRO_MODULE_ERROR_LOCATING_NAME_SYMBOL_def MICRO_MODULE_ERROR_OPENING_MODULE_def
  MICRO_MODULE_ERROR_CLOSING_MODULE_def MICRO_MODULE_ERROR_ALLOCATING_MEMORY_def
  MICRO_MODULE_ERROR_MODULE_NOT_REGISTERED_def MICRO_MODULE_ERROR_ARG_NULL_def

section \<open>Data model\<close>

text \<open>Pointers handed out by the platform are opaque numbers: a \<open>handle\<close> is a non-NULL
  result of \<^verbatim>\<open>dlmopen\<close>, a \<open>fnptr\<close> a non-NULL function address returned by \<^verbatim>\<open>dlsym\<close>,
  and \<open>arg\<close> the \<^verbatim>\<open>void*\<close> the host passes through to every entry point. A pointer that
  may be NULL is an \<open>option\<close>.\<close>

type_synonym handle = nat
type_synonym fnptr = nat
type_synonym arg = nat

text \<open>\<^verbatim>\<open>MicroModuleEntry\<close> (lines 177-186). The field \<^verbatim>\<open>char *name\<close> points into the mapped
  image at a constant character array; the model stores the string it points to, which is
  what every \<^verbatim>\<open>strcmp\<close> on the field reads.\<close>

record MicroModuleEntry =
  name :: string
  init_fn :: fnptr
  exit_fn :: fnptr
  dlhandler :: handle

text \<open>\<^verbatim>\<open>MicroModule\<close> (lines 197-210). The singly linked \<^verbatim>\<open>MicroModuleList\<close> reachable from
  \<^verbatim>\<open>modules\<close> is the list of its nodes' \<^verbatim>\<open>module\<close> fields, head first; \<^verbatim>\<open>NULL\<close> is \<open>[]\<close>.\<close>

record MicroModule =
  modules :: "MicroModuleEntry list"
  name_symbol :: string
  init_fn_symbol :: string
  exit_fn_symbol :: string
  use_new_namespace :: bool

section \<open>The platform: dynamic loader, plugin code, allocator, directory walk\<close>

text \<open>Everything the library does to the outside world is recorded, in order, in a trace.
  \<open>Dlmopen ns file\<close> is \<^verbatim>\<open>dlmopen\<close> with \<^verbatim>\<open>LM_ID_NEWLM\<close> when \<open>ns\<close> holds and \<^verbatim>\<open>LM_ID_BASE\<close>
  otherwise; \<open>Call f a\<close> is a call through the function pointer \<open>f\<close> with argument \<open>a\<close>, and it
  is recorded when the call has returned. \<open>Store ms\<close> marks a write to the linked list after
  which the list reachable from \<^verbatim>\<open>mm->modules\<close> reads \<open>ms\<close>.\<close>

datatype event =
    Dlmopen bool string
  | Dlsym handle string
  | Dlclose handle
  | Call fnptr arg
  | Store "MicroModuleEntry list"
  | Fts_open string
  | Fts_close

text \<open>\<^verbatim>\<open>fts_info\<close> values of \<^verbatim>\<open><fts.h>\<close> and the three fields of \<^verbatim>\<open>FTSENT\<close> that
  \<^verbatim>\<open>micro_module_init_all\<close> reads.\<close>

datatype fts_info =
    FTS_D | FTS_DC | FTS_DEFAULT | FTS_DNR | FTS_DOT | FTS_DP | FTS_ERR
  | FTS_F | FTS_INIT | FTS_NS | FTS_NSOK | FTS_SL | FTS_SLNONE | FTS_W

record FTSENT =
  fts_info :: fts_info
  fts_level :: int
  fts_path :: string

text \<open>The behaviour of the platform. Each answer is a function of the trace so far, so a
  platform can answer the same call differently at different times (a \<^verbatim>\<open>dlclose\<close> that fails
  once and then succeeds, a plugin whose \<^verbatim>\<open>init\<close> fails on the second load, ...).
  \<^item> \<open>dlmopen\<close>: the handle, or \<open>None\<close> for NULL;
  \<^item> \<open>dlsym_fn\<close>, \<open>dlsym_str\<close>: \<^verbatim>\<open>dlsym\<close>, read as a function pointer and as a C string;
  \<^item> \<open>dlclose\<close>: its return value;
  \<^item> \<open>call\<close>: the value a plugin entry point returns;
  \<^item> \<open>malloc\<close>: whether \<^verbatim>\<open>MICRO_MODULE_MALLOC\<close> returns non-NULL;
  \<^item> \<open>fts_open\<close>: \<open>None\<close> for NULL, otherwise the entries that the successive \<^verbatim>\<open>fts_read\<close>
    calls of the loop return before NULL (the walk as this loop sees it, every
    subdirectory skipped by \<^verbatim>\<open>fts_set\<close>);
  \<^item> \<open>fts_close\<close>: its return value.\<close>

record platform =
  dlmopen :: "event list \<Rightarrow> bool \<Rightarrow> string \<Rightarrow> handle option"
  dlsym_fn :: "event list \<Rightarrow> handle \<Rightarrow> string \<Rightarrow> fnptr option"
  dlsym_str :: "event list \<Rightarrow> handle \<Rightarrow> string \<Rightarrow> string option"
  dlclose :: "event list \<Rightarrow> handle \<Rightarrow> int"
  call :: "event list \<Rightarrow> fnptr \<Rightarrow> arg \<Rightarrow> int"
  malloc :: "event list \<Rightarrow> bool"
  fts_open :: "event list \<Rightarrow> string \<Rightarrow> FTSENT list option"
  fts_close :: "event list \<Rightarrow> int"

section \<open>The library\<close>

text \<open>Every function takes the pointer \<^verbatim>\<open>mm\<close> as a \<open>MicroModule option\<close> (\<open>None\<close> is NULL) and
  the trace so far; it returns the C return value, the object \<^verbatim>\<open>mm\<close> points to after the call,
  and the extended trace.\<close>

type_synonym outcome = "int \<times> MicroModule option \<times> event list"

definition micro_module_setup :: "string \<Rightarrow> string \<Rightarrow> string \<Rightarrow> bool \<Rightarrow> MicroModule" where
  "micro_module_setup name_sym init_sym exit_sym new_ns =
     \<lparr> modules = [],
       name_symbol = name_sym,
       init_fn_symbol = init_sym,
       exit_fn_symbol = exit_sym,
       use_new_namespace = new_ns \<rparr>"

subsection \<open>\<^verbatim>\<open>micro_module_init\<close>\<close>

text \<open>Lines 281-313: open the file and resolve the init, exit and name symbols, in that
  order. \<open>Inl\<close> carries the status of an early return, \<open>Inr\<close> the local variable
  \<^verbatim>\<open>module\<close>.\<close>

definition open_module ::
  "platform \<Rightarrow> MicroModule \<Rightarrow> string \<Rightarrow> event list \<Rightarrow> (int + MicroModuleEntry) \<times> event list" where
  "open_module pf mm filename tr =
     (let t1 = tr @ [Dlmopen (use_new_namespace mm) filename] in
      case dlmopen pf tr (use_new_namespace mm) filename of
        None \<Rightarrow> (Inl MICRO_MODULE_ERROR_OPENING_MODULE, t1)
      | Some h \<Rightarrow>
         (let t2 = t1 @ [Dlsym h (init_fn_symbol mm)] in
          case dlsym_fn pf t1 h (init_fn_symbol mm) of
            None \<Rightarrow> (Inl MICRO_MODULE_ERROR_LOCATING_INIT_SYMBOL, t2 @ [Dlclose h])
          | Some i \<Rightarrow>
             (let t3 = t2 @ [Dlsym h (exit_fn_symbol mm)] in
              case dlsym_fn pf t2 h (exit_fn_symbol mm) of
                None \<Rightarrow> (Inl MICRO_MODULE_ERROR_LOCATING_EXIT_SYMBOL, t3 @ [Dlclose h])
              | Some e \<Rightarrow>
                 (let t4 = t3 @ [Dlsym h (name_symbol mm)] in
                  case dlsym_str pf t3 h (name_symbol mm) of
                    None \<Rightarrow> (Inl MICRO_MODULE_ERROR_LOCATING_NAME_SYMBOL, t4 @ [Dlclose h])
                  | Some n \<Rightarrow>
                     (Inr \<lparr> name = n, init_fn = i, exit_fn = e, dlhandler = h \<rparr>, t4)))))"

text \<open>Lines 316-336: the \<^verbatim>\<open>while (it)\<close> loop. \<open>prevs\<close> are the nodes already passed, the
  second list the nodes from \<^verbatim>\<open>it\<close> on. \<open>Inl\<close> is the early \<^verbatim>\<open>return\<close> of line 329, \<open>Inr\<close> the
  flag \<^verbatim>\<open>found\<close> when the loop is left.\<close>

fun replace_registered ::
  "platform \<Rightarrow> arg \<Rightarrow> MicroModuleEntry \<Rightarrow> MicroModuleEntry list \<Rightarrow> MicroModuleEntry list \<Rightarrow>
   event list \<Rightarrow> (int + bool) \<times> MicroModuleEntry list \<times> event list" where
  "replace_registered pf a module prevs [] tr = (Inr False, prevs, tr)"
| "replace_registered pf a module prevs (it # rest) tr =
     (if name it = name module then
        (let t1 = tr @ [Call (exit_fn it) a];
             t2 = t1 @ [Dlclose (dlhandler it)] in
         if dlclose pf t1 (dlhandler it) \<noteq> 0 then
           (Inl MICRO_MODULE_ERROR_CLOSING_MODULE, prevs @ it # rest,
            t2 @ [Dlclose (dlhandler module)])
         else
           (Inr True, prevs @ module # rest, t2 @ [Store (prevs @ module # rest)]))
      else replace_registered pf a module (prevs @ [it]) rest tr)"

text \<open>Lines 338-354: push a new node at the head when the name was not found. Both
  branches of the \<^verbatim>\<open>if (!mm->modules)\<close> make the new node the head in front of the old
  list.\<close>

definition push_module ::
  "platform \<Rightarrow> MicroModuleEntry \<Rightarrow> MicroModuleEntry list \<Rightarrow> event list \<Rightarrow>
   (int + bool) \<times> MicroModuleEntry list \<times> event list" where
  "push_module pf module ms tr =
     (if \<not> malloc pf tr then (Inl MICRO_MODULE_ERROR_ALLOCATING_MEMORY, ms, tr)
      else (Inr True, module # ms, tr @ [Store (module # ms)]))"

text \<open>Lines 315-354: the registration of \<^verbatim>\<open>module\<close>: the scan from the head of the list
  (\<^verbatim>\<open>it = mm->modules\<close>), then the push \<^verbatim>\<open>if (!found)\<close>.\<close>

definition register_module ::
  "platform \<Rightarrow> arg \<Rightarrow> MicroModuleEntry \<Rightarrow> MicroModuleEntry list \<Rightarrow> event list \<Rightarrow>
   (int + bool) \<times> MicroModuleEntry list \<times> event list" where
  "register_module pf a module ms tr =
     (case replace_registered pf a module [] ms tr of
        (Inr False, ms', t) \<Rightarrow> push_module pf module ms' t
      | r \<Rightarrow> r)"

text \<open>Lines 276-362.\<close>

definition micro_module_init ::
  "platform \<Rightarrow> MicroModule option \<Rightarrow> string \<Rightarrow> arg \<Rightarrow> event list \<Rightarrow> outcome" where
  "micro_module_init pf mmp filename a tr =
     (case mmp of
        None \<Rightarrow> (MICRO_MODULE_ERROR_IS_NULL, None, tr)
      | Some mm \<Rightarrow>
         (case open_module pf mm filename tr of
            (Inl err, t1) \<Rightarrow> (err, Some mm, t1)
          | (Inr module, t1) \<Rightarrow>
             (case register_module pf a module (modules mm) t1 of
                (Inl err, ms, t2) \<Rightarrow> (err, Some (mm\<lparr>modules := ms\<rparr>), t2)
              | (Inr _, ms, t2) \<Rightarrow>
                 (let err = call pf t2 (init_fn module) a;
                      t3 = t2 @ [Call (init_fn module) a] in
                  if err \<noteq> 0 then (err, Some (mm\<lparr>modules := ms\<rparr>), t3)
                  else (MICRO_MODULE_OK, Some (mm\<lparr>modules := ms\<rparr>), t3)))))"

subsection \<open>\<^verbatim>\<open>micro_module_init_all\<close>\<close>

text \<open>Lines 375-404: the \<^verbatim>\<open>fts_read\<close> loop over the entries of the walk. A directory is
  passed over (the root by \<^verbatim>\<open>continue\<close>, any other after \<^verbatim>\<open>fts_set(..., FTS_SKIP)\<close>); a regular
  file, a symbolic link or a \<^verbatim>\<open>FTS_DEFAULT\<close> entry is loaded when it is at level 1; the
  first status other than OK leaves the loop (\<^verbatim>\<open>goto exit\<close>).\<close>

fun init_all_loop ::
  "platform \<Rightarrow> MicroModule option \<Rightarrow> arg \<Rightarrow> FTSENT list \<Rightarrow> event list \<Rightarrow> outcome" where
  "init_all_loop pf mmp a [] tr = (MICRO_MODULE_OK, mmp, tr)"
| "init_all_loop pf mmp a (file_entry # rest) tr =
     (if fts_info file_entry = FTS_D then init_all_loop pf mmp a rest tr
      else if fts_info file_entry = FTS_F \<or> fts_info file_entry = FTS_SL
              \<or> fts_info file_entry = FTS_DEFAULT then
        (if fts_level file_entry = 1 then
           (case micro_module_init pf mmp (fts_path file_entry) a tr of
              (err, mmp', tr') \<Rightarrow>
                if err \<noteq> MICRO_MODULE_OK then (err, mmp', tr')
                else init_all_loop pf mmp' a rest tr')
         else init_all_loop pf mmp a rest tr)
      else init_all_loop pf mmp a rest tr)"

text \<open>Lines 364-410.\<close>

definition micro_module_init_all ::
  "platform \<Rightarrow> MicroModule option \<Rightarrow> string \<Rightarrow> arg \<Rightarrow> event list \<Rightarrow> outcome" where
  "micro_module_init_all pf mmp modules_dir a tr =
     (case mmp of
        None \<Rightarrow> (MICRO_MODULE_ERROR_IS_NULL, None, tr)
      | Some mm \<Rightarrow>
         (case fts_open pf tr modules_dir of
            None \<Rightarrow> (MICRO_MODULE_ERROR_OPEN_MODULES_DIR, mmp, tr @ [Fts_open modules_dir])
          | Some files \<Rightarrow>
             (case init_all_loop pf mmp a files (tr @ [Fts_open modules_dir]) of
                (err, mmp', tr') \<Rightarrow>
                  if fts_close pf tr' < 0 \<and> err = MICRO_MODULE_OK
                  then (MICRO_MODULE_ERROR_CLOSE_MODULES_DIR, mmp', tr' @ [Fts_close])
                  else (err, mmp', tr' @ [Fts_close]))))"

subsection \<open>\<^verbatim>\<open>micro_module_exit\<close>\<close>

text \<open>Lines 433-449: the \<^verbatim>\<open>while(it)\<close> loop with its trailing pointer. \<open>prevs\<close> are the nodes
  already passed, so \<^verbatim>\<open>prev\<close> is NULL exactly when \<open>prevs = []\<close>, and \<^verbatim>\<open>prev->next = it->next\<close>
  leaves the list \<open>prevs @ rest\<close>. The loop is entered only after the head has failed the
  same \<^verbatim>\<open>strcmp\<close> (line 421), so a match is never found while \<^verbatim>\<open>prev\<close> is NULL.\<close>

fun exit_scan ::
  "platform \<Rightarrow> string \<Rightarrow> arg \<Rightarrow> MicroModuleEntry list \<Rightarrow> MicroModuleEntry list \<Rightarrow>
   event list \<Rightarrow> int \<times> MicroModuleEntry list \<times> event list" where
  "exit_scan pf module_name a prevs [] tr =
     (MICRO_MODULE_ERROR_MODULE_NOT_REGISTERED, prevs, tr)"
| "exit_scan pf module_name a prevs (it # rest) tr =
     (if name it = module_name then
        (let t1 = tr @ [Call (exit_fn it) a];
             t2 = t1 @ [Dlclose (dlhandler it)] in
         if dlclose pf t1 (dlhandler it) \<noteq> 0 then
           (MICRO_MODULE_ERROR_CLOSING_MODULE, prevs @ it # rest, t2)
         else (MICRO_MODULE_OK, prevs @ rest, t2 @ [Store (prevs @ rest)]))
      else exit_scan pf module_name a (prevs @ [it]) rest tr)"

text \<open>Lines 412-452. \<^verbatim>\<open>module_name\<close> is a pointer that may be NULL.\<close>

definition micro_module_exit ::
  "platform \<Rightarrow> MicroModule option \<Rightarrow> string option \<Rightarrow> arg \<Rightarrow> event list \<Rightarrow> outcome" where
  "micro_module_exit pf mmp module_name a tr =
     (case mmp of
        None \<Rightarrow> (MICRO_MODULE_ERROR_IS_NULL, None, tr)
      | Some mm \<Rightarrow>
         (case modules mm of
            [] \<Rightarrow> (MICRO_MODULE_ERROR_MODULE_NOT_REGISTERED, Some mm, tr)
          | first # rest \<Rightarrow>
             (case module_name of
                None \<Rightarrow> (MICRO_MODULE_ERROR_ARG_NULL, Some mm, tr)
              | Some n \<Rightarrow>
                 if name first = n then
                   (let t1 = tr @ [Call (exit_fn first) a];
                        t2 = t1 @ [Dlclose (dlhandler first)] in
                    if dlclose pf t1 (dlhandler first) \<noteq> 0 then
                      (MICRO_MODULE_ERROR_CLOSING_MODULE, Some mm, t2)
                    else (MICRO_MODULE_OK, Some (mm\<lparr>modules := rest\<rparr>), t2 @ [Store rest]))
                 else
                   (case exit_scan pf n a [] (first # rest) tr of
                      (err, ms, t) \<Rightarrow> (err, Some (mm\<lparr>modules := ms\<rparr>), t)))))"

subsection \<open>\<^verbatim>\<open>micro_module_exit_all\<close>\<close>

text \<open>Lines 460-469: the cursor \<^verbatim>\<open>it\<close> walks the nodes the list had when the loop started
  (\<^verbatim>\<open>next\<close> is read before the node is unloaded), while each \<^verbatim>\<open>micro_module_exit\<close> works
  on the list as it is now.\<close>

fun exit_all_loop ::
  "platform \<Rightarrow> MicroModule option \<Rightarrow> arg \<Rightarrow> MicroModuleEntry list \<Rightarrow> event list \<Rightarrow>
   int \<times> MicroModule option \<times> event list" where
  "exit_all_loop pf mmp a [] tr = (MICRO_MODULE_OK, mmp, tr)"
| "exit_all_loop pf mmp a (it # next) tr =
     (case micro_module_exit pf mmp (Some (name it)) a tr of
        (err, mmp', tr') \<Rightarrow>
          if err \<noteq> MICRO_MODULE_OK then (err, mmp', tr')
          else exit_all_loop pf mmp' a next tr')"

text \<open>Lines 454-473.\<close>

definition micro_module_exit_all ::
  "platform \<Rightarrow> MicroModule option \<Rightarrow> arg \<Rightarrow> event list \<Rightarrow> outcome" where
  "micro_module_exit_all pf mmp a tr =
     (case mmp of
        None \<Rightarrow> (MICRO_MODULE_ERROR_IS_NULL, None, tr)
      | Some mm \<Rightarrow>
         (case exit_all_loop pf mmp a (modules mm) tr of
            (err, mmp', tr') \<Rightarrow>
              if err \<noteq> MICRO_MODULE_OK then (err, mmp', tr')
              else (MICRO_MODULE_OK, map_option (\<lambda>m. m\<lparr>modules := []\<rparr>) mmp',
                    tr' @ [Store []])))"

section \<open>Reading an outcome\<close>

definition status :: "outcome \<Rightarrow> int" where
  "status out = fst out"

text \<open>The entries reachable from \<^verbatim>\<open>mm->modules\<close>; a NULL \<^verbatim>\<open>mm\<close> has none.\<close>

definition entries :: "MicroModule option \<Rightarrow> MicroModuleEntry list" where
  "entries mmp = (case mmp of None \<Rightarrow> [] | Some mm \<Rightarrow> modules mm)"

definition registry :: "outcome \<Rightarrow> MicroModuleEntry list" where
  "registry out = entries (fst (snd out))"

definition events :: "outcome \<Rightarrow> event list" where
  "events out = snd (snd out)"

text \<open>The registry invariant of the data model: no two entries carry the same name.\<close>

definition names_unique :: "MicroModuleEntry list \<Rightarrow> bool" where
  "names_unique ms = distinct (map name ms)"

text \<open>The ordering contract between a plugin's exit entry point and \<^verbatim>\<open>dlclose\<close>, as a check
  on the run of events one operation adds to the trace. \<open>ms\<close> is the registry when the
  operation starts, \<open>own\<close> the handle the operation has opened itself (if any), \<open>prev\<close> the
  event just before the rest of the run. Every \<open>Dlclose h\<close> must come directly after the
  call of the exit function of a registered entry whose handle is \<open>h\<close>. The one exception
  is the close by which the operation gives up its own handle, and that only as the very
  last event of the run: a close of the own handle that anything follows is checked like
  every other close, also when the loader has handed out a handle that is already in the
  registry.\<close>

fun closes_follow_exit ::
  "MicroModuleEntry list \<Rightarrow> arg \<Rightarrow> handle option \<Rightarrow> event option \<Rightarrow> event list \<Rightarrow> bool" where
  "closes_follow_exit ms a own prev [] = True"
| "closes_follow_exit ms a own prev (ev # evs) =
     ((case ev of
         Dlclose h \<Rightarrow>
           (\<exists>e\<in>set ms. dlhandler e = h \<and> prev = Some (Call (exit_fn e) a))
           \<or> (own = Some h \<and> evs = [])
       | _ \<Rightarrow> True)
      \<and> closes_follow_exit ms a own (Some ev) evs)"

text \<open>An entry of the walk that \<^verbatim>\<open>micro_module_init_all\<close> hands to \<^verbatim>\<open>micro_module_init\<close>.\<close>

definition candidate :: "FTSENT \<Rightarrow> bool" where
  "candidate f \<longleftrightarrow>
     (fts_info f = FTS_F \<or> fts_info f = FTS_SL \<or> fts_info f = FTS_DEFAULT) \<and> fts_level f = 1"

text \<open>The bulk load in the words of the specification: for each path in order, load or
  reload it; stop at the first status other than OK and return it.\<close>

fun load_paths_in_order ::
  "platform \<Rightarrow> MicroModule option \<Rightarrow> arg \<Rightarrow> string list \<Rightarrow> event list \<Rightarrow> outcome" where
  "load_paths_in_order pf mmp a [] tr = (MICRO_MODULE_OK, mmp, tr)"
| "load_paths_in_order pf mmp a (p # ps) tr =
     (case micro_module_init pf mmp p a tr of
        (err, mmp', tr') \<Rightarrow>
          if err \<noteq> MICRO_MODULE_OK then (err, mmp', tr')
          else load_paths_in_order pf mmp' a ps tr')"

section \<open>A sample platform\<close>

text \<open>Three plugin files in the directory \<^verbatim>\<open>plugins\<close>. \<^verbatim>\<open>alpha.so\<close> and \<^verbatim>\<open>gamma.so\<close> export all
  three symbols; \<^verbatim>\<open>beta.so\<close> lacks the exit symbol. Opening \<^verbatim>\<open>alpha.so\<close> a second time maps
  it again under a new handle. The init entry point of \<^verbatim>\<open>gamma.so\<close> returns 7, every other
  entry point 0.\<close>

definition sample_platform :: platform where
  "sample_platform =
     \<lparr> dlmopen = (\<lambda>tr ns f.
         if f = ''plugins/alpha.so'' then
           (if Dlmopen ns f \<in> set tr then Some 4 else Some 1)
         else if f = ''plugins/beta.so'' then Some 2
         else if f = ''plugins/gamma.so'' then Some 3
         else None),
       dlsym_fn = (\<lambda>tr h s.
         if s = ''micro_module_init'' then Some (10 * h + 1)
         else if s = ''micro_module_exit'' \<and> h \<noteq> 2 then Some (10 * h + 2)
         else None),
       dlsym_str = (\<lambda>tr h s.
         if s = ''micro_module_name'' then
           (if h = 1 \<or> h = 4 then Some ''alpha''
            else if h = 2 then Some ''beta''
            else if h = 3 then Some ''gamma''
            else None)
         else None),
       dlclose = (\<lambda>tr h. 0),
       call = (\<lambda>tr f a. if f = 31 then 7 else 0),
       malloc = (\<lambda>tr. True),
       fts_open = (\<lambda>tr d.
         if d = ''plugins'' then
           Some [\<lparr> fts_info = FTS_D, fts_level = 0, fts_path = ''plugins'' \<rparr>,
                 \<lparr> fts_info = FTS_F, fts_level = 1, fts_path = ''plugins/alpha.so'' \<rparr>,
                 \<lparr> fts_info = FTS_F, fts_level = 1, fts_path = ''plugins/beta.so'' \<rparr>,
                 \<lparr> fts_info = FTS_F, fts_level = 1, fts_path = ''plugins/gamma.so'' \<rparr>,
                 \<lparr> fts_info = FTS_DP, fts_level = 0, fts_path = ''plugins'' \<rparr>]
         else None),
       fts_close = (\<lambda>tr. 0) \<rparr>"

text \<open>The same platform with a \<^verbatim>\<open>dlclose\<close> that always fails.\<close>

definition stuck_platform :: platform where
  "stuck_platform = sample_platform\<lparr> dlclose := (\<lambda>tr h. - 1) \<rparr>"

text \<open>The same platform as the loader behaves in the base namespace: a file that is
  already mapped is not mapped again, \<^verbatim>\<open>dlmopen\<close> returns the handle it has (and counts the
  reference). A reload of \<^verbatim>\<open>alpha.so\<close> then opens the very handle the registry holds.\<close>

definition shared_platform :: platform where
  "shared_platform =
     sample_platform\<lparr> dlmopen := (\<lambda>tr ns f.
         if f = ''plugins/alpha.so'' then Some 1
         else if f = ''plugins/beta.so'' then Some 2
         else if f = ''plugins/gamma.so'' then Some 3
         else None) \<rparr>"

definition base_mm :: MicroModule where
  "base_mm =
     micro_module_setup ''micro_module_name'' ''micro_module_init'' ''micro_module_exit'' False"

definition sample_mm :: MicroModule where
  "sample_mm =
     micro_module_setup ''micro_module_name'' ''micro_module_init'' ''micro_module_exit'' True"

definition alpha :: MicroModuleEntry where
  "alpha = \<lparr> name = ''alpha'', init_fn = 11, exit_fn = 12, dlhandler = 1 \<rparr>"

definition alpha_again :: MicroModuleEntry where
  "alpha_again = \<lparr> name = ''alpha'', init_fn = 41, exit_fn = 42, dlhandler = 4 \<rparr>"

definition gamma :: MicroModuleEntry where
  "gamma = \<lparr> name = ''gamma'', init_fn = 31, exit_fn = 32, dlhandler = 3 \<rparr>"

lemmas sample_defs =
  sample_platform_def stuck_platform_def shared_platform_def sample_mm_def base_mm_def
  micro_module_setup_def alpha_def alpha_again_def gamma_def

section \<open>Lists: the first entry under a name\<close>

lemma find_first_split:
  "find P xs = Some x \<Longrightarrow> \<exists>pre post. xs = pre @ x # post \<and> P x \<and> (\<forall>y\<in>set pre. \<not> P y)"
proof (induction xs)
  case Nil
  then show ?case by simp
next
  case (Cons y ys)
  show ?case
  proof (cases "P y")
    case True
    with Cons.prems have "x = y" by simp
    with True have "y # ys = [] @ x # ys \<and> P x \<and> (\<forall>z\<in>set []. \<not> P z)" by simp
    then show ?thesis by blast
  next
    case False
    with Cons.prems have "find P ys = Some x" by simp
    from Cons.IH [OF this] obtain pre post
      where "ys = pre @ x # post" "P x" "\<forall>z\<in>set pre. \<not> P z" by blast
    with False have "y # ys = (y # pre) @ x # post \<and> P x \<and> (\<forall>z\<in>set (y # pre). \<not> P z)"
      by simp
    then show ?thesis by blast
  qed
qed

lemma find_first_of_split:
  "\<forall>y\<in>set pre. \<not> P y \<Longrightarrow> P x \<Longrightarrow> find P (pre @ x # post) = Some x"
  by (induction pre) auto

section \<open>The two list scans\<close>

lemma replace_registered_absent:
  "name module \<notin> name ` set its \<Longrightarrow>
   replace_registered pf a module prevs its tr = (Inr False, prevs @ its, tr)"
  by (induction its arbitrary: prevs) auto

lemma replace_registered_present:
  "\<forall>x\<in>set pre. name x \<noteq> name module \<Longrightarrow> name old = name module \<Longrightarrow>
   replace_registered pf a module prevs (pre @ old # post) tr =
     (if dlclose pf (tr @ [Call (exit_fn old) a]) (dlhandler old) \<noteq> 0
      then (Inl MICRO_MODULE_ERROR_CLOSING_MODULE, prevs @ pre @ old # post,
            tr @ [Call (exit_fn old) a, Dlclose (dlhandler old), Dlclose (dlhandler module)])
      else (Inr True, prevs @ pre @ module # post,
            tr @ [Call (exit_fn old) a, Dlclose (dlhandler old),
                  Store (prevs @ pre @ module # post)]))"
  by (induction pre arbitrary: prevs) (auto simp: Let_def)

lemma exit_scan_absent:
  "n \<notin> name ` set its \<Longrightarrow>
   exit_scan pf n a prevs its tr =
     (MICRO_MODULE_ERROR_MODULE_NOT_REGISTERED, prevs @ its, tr)"
  by (induction its arbitrary: prevs) auto

lemma exit_scan_present:
  "\<forall>x\<in>set pre. name x \<noteq> n \<Longrightarrow> name e = n \<Longrightarrow>
   exit_scan pf n a prevs (pre @ e # post) tr =
     (if dlclose pf (tr @ [Call (exit_fn e) a]) (dlhandler e) \<noteq> 0
      then (MICRO_MODULE_ERROR_CLOSING_MODULE, prevs @ pre @ e # post,
            tr @ [Call (exit_fn e) a, Dlclose (dlhandler e)])
      else (MICRO_MODULE_OK, prevs @ pre @ post,
            tr @ [Call (exit_fn e) a, Dlclose (dlhandler e), Store (prevs @ pre @ post)]))"
  by (induction pre arbitrary: prevs) (auto simp: Let_def)

section \<open>What \<^verbatim>\<open>micro_module_exit\<close> computes\<close>

lemma micro_module_exit_absent:
  "n \<notin> name ` set (modules mm) \<Longrightarrow>
   micro_module_exit pf (Some mm) (Some n) a tr =
     (MICRO_MODULE_ERROR_MODULE_NOT_REGISTERED, Some mm, tr)"
proof (cases "modules mm")
  case Nil
  then show ?thesis by (simp add: micro_module_exit_def)
next
  case (Cons first rest)
  assume "n \<notin> name ` set (modules mm)"
  with Cons have ne: "name first \<noteq> n" and abs: "n \<notin> name ` set (first # rest)"
    by auto
  have "mm\<lparr>modules := first # rest\<rparr> = mm" using Cons by simp
  with Cons ne exit_scan_absent [OF abs, of pf a "[]" tr] show ?thesis
    by (simp add: micro_module_exit_def)
qed

lemma micro_module_exit_present:
  assumes "modules mm = pre @ e # post" and "\<forall>x\<in>set pre. name x \<noteq> n" and "name e = n"
  shows "micro_module_exit pf (Some mm) (Some n) a tr =
     (if dlclose pf (tr @ [Call (exit_fn e) a]) (dlhandler e) \<noteq> 0
      then (MICRO_MODULE_ERROR_CLOSING_MODULE, Some mm,
            tr @ [Call (exit_fn e) a, Dlclose (dlhandler e)])
      else (MICRO_MODULE_OK, Some (mm\<lparr>modules := pre @ post\<rparr>),
            tr @ [Call (exit_fn e) a, Dlclose (dlhandler e), Store (pre @ post)]))"
proof (cases pre)
  case Nil
  with assms show ?thesis by (simp add: micro_module_exit_def Let_def)
next
  case (Cons p ps)
  with assms have ne: "name p \<noteq> n" and ms: "modules mm = p # (ps @ e # post)" by auto
  have same: "mm\<lparr>modules := p # ps @ e # post\<rparr> = mm" using ms by simp
  from exit_scan_present [OF assms(2,3), of pf a "[]" post tr] Cons
  have "exit_scan pf n a [] (p # ps @ e # post) tr =
     (if dlclose pf (tr @ [Call (exit_fn e) a]) (dlhandler e) \<noteq> 0
      then (MICRO_MODULE_ERROR_CLOSING_MODULE, p # ps @ e # post,
            tr @ [Call (exit_fn e) a, Dlclose (dlhandler e)])
      else (MICRO_MODULE_OK, pre @ post,
            tr @ [Call (exit_fn e) a, Dlclose (dlhandler e), Store (pre @ post)]))"
    by simp
  with ne ms same show ?thesis
    by (simp add: micro_module_exit_def)
qed

section \<open>What \<^verbatim>\<open>micro_module_init\<close> computes\<close>

lemma open_module_Inr:
  assumes "open_module pf mm filename tr = (Inr new, t1)"
  shows "dlmopen pf tr (use_new_namespace mm) filename = Some (dlhandler new) \<and>
         t1 = tr @ [Dlmopen (use_new_namespace mm) filename,
                    Dlsym (dlhandler new) (init_fn_symbol mm),
                    Dlsym (dlhandler new) (exit_fn_symbol mm),
                    Dlsym (dlhandler new) (name_symbol mm)]"
  using assms
  by (auto simp: open_module_def Let_def split: option.splits)

lemma register_module_absent:
  "name module \<notin> name ` set ms \<Longrightarrow>
   register_module pf a module ms tr =
     (if \<not> malloc pf tr then (Inl MICRO_MODULE_ERROR_ALLOCATING_MEMORY, ms, tr)
      else (Inr True, module # ms, tr @ [Store (module # ms)]))"
  using replace_registered_absent [of module ms pf a "[]" tr]
  by (simp add: register_module_def push_module_def)

lemma register_module_present:
  assumes "\<forall>x\<in>set pre. name x \<noteq> name module" and "name old = name module"
  shows "register_module pf a module (pre @ old # post) tr =
     (if dlclose pf (tr @ [Call (exit_fn old) a]) (dlhandler old) \<noteq> 0
      then (Inl MICRO_MODULE_ERROR_CLOSING_MODULE, pre @ old # post,
            tr @ [Call (exit_fn old) a, Dlclose (dlhandler old), Dlclose (dlhandler module)])
      else (Inr True, pre @ module # post,
            tr @ [Call (exit_fn old) a, Dlclose (dlhandler old), Store (pre @ module # post)]))"
  using replace_registered_present [OF assms, of pf a "[]" post tr]
  by (simp add: register_module_def)

lemma micro_module_init_open_failed:
  "open_module pf mm filename tr = (Inl err, t1) \<Longrightarrow>
   micro_module_init pf (Some mm) filename a tr = (err, Some mm, t1)"
  by (simp add: micro_module_init_def)

lemma micro_module_init_registering:
  assumes "open_module pf mm filename tr = (Inr new, t1)"
  shows "micro_module_init pf (Some mm) filename a tr =
     (case register_module pf a new (modules mm) t1 of
        (Inl err, ms, t2) \<Rightarrow> (err, Some (mm\<lparr>modules := ms\<rparr>), t2)
      | (Inr found, ms, t2) \<Rightarrow>
          (call pf t2 (init_fn new) a, Some (mm\<lparr>modules := ms\<rparr>),
           t2 @ [Call (init_fn new) a]))"
  using assms
  by (simp add: micro_module_init_def Let_def MICRO_MODULE_OK_def
           split: prod.splits sum.splits)

lemma micro_module_init_registered:
  assumes "open_module pf mm filename tr = (Inr new, t1)"
    and "modules mm = pre @ old # post"
    and "\<forall>x\<in>set pre. name x \<noteq> name new"
    and "name old = name new"
  shows "micro_module_init pf (Some mm) filename a tr =
     (if dlclose pf (t1 @ [Call (exit_fn old) a]) (dlhandler old) \<noteq> 0
      then (MICRO_MODULE_ERROR_CLOSING_MODULE, Some mm,
            t1 @ [Call (exit_fn old) a, Dlclose (dlhandler old), Dlclose (dlhandler new)])
      else (call pf (t1 @ [Call (exit_fn old) a, Dlclose (dlhandler old),
                           Store (pre @ new # post)]) (init_fn new) a,
            Some (mm\<lparr>modules := pre @ new # post\<rparr>),
            t1 @ [Call (exit_fn old) a, Dlclose (dlhandler old),
                  Store (pre @ new # post), Call (init_fn new) a]))"
proof -
  have same: "mm\<lparr>modules := pre @ old # post\<rparr> = mm" using assms(2) by simp
  from register_module_present [OF assms(3,4), of pf a post t1]
  show ?thesis
    using assms(2) same
    by (simp add: micro_module_init_registering [OF assms(1)])
qed

lemma micro_module_init_fresh:
  assumes "open_module pf mm filename tr = (Inr new, t1)"
    and "name new \<notin> name ` set (modules mm)"
  shows "micro_module_init pf (Some mm) filename a tr =
     (if \<not> malloc pf t1 then (MICRO_MODULE_ERROR_ALLOCATING_MEMORY, Some mm, t1)
      else (call pf (t1 @ [Store (new # modules mm)]) (init_fn new) a,
            Some (mm\<lparr>modules := new # modules mm\<rparr>),
            t1 @ [Store (new # modules mm), Call (init_fn new) a]))"
proof -
  have same: "mm\<lparr>modules := modules mm\<rparr> = mm" by simp
  from register_module_absent [OF assms(2), of pf a t1]
  show ?thesis
    using same
    by (simp add: micro_module_init_registering [OF assms(1)])
qed

lemma register_module_makes_first:
  assumes "register_module pf a module ms tr = (Inr found, ms', tr')"
  shows "find (\<lambda>x. name x = name module) ms' = Some module"
proof (cases "name module \<in> name ` set ms")
  case False
  from register_module_absent [OF False, of pf a tr] assms
  have "ms' = module # ms" by (auto split: if_splits)
  then show ?thesis by simp
next
  case True
  then have "\<exists>x\<in>set ms. name x = name module" by auto
  from split_list_first_prop [OF this] obtain pre old post
    where ms: "ms = pre @ old # post" and old: "name old = name module"
      and pre: "\<forall>x\<in>set pre. name x \<noteq> name module" by blast
  from register_module_present [OF pre old, of pf a post tr] assms ms
  have "ms' = pre @ module # post" by (auto split: if_splits)
  with pre show ?thesis by (simp add: find_first_of_split)
qed

lemma unique_name_elsewhere:
  assumes "names_unique (pre @ old # post)" and "name old = n"
  shows "(\<forall>x\<in>set pre. name x \<noteq> n) \<and> (\<forall>x\<in>set post. name x \<noteq> n)"
proof -
  from assms have "n \<notin> name ` set pre" and "n \<notin> name ` set post"
    by (auto simp: names_unique_def)
  then show ?thesis by blast
qed

lemma replace_by_name:
  assumes "\<forall>x\<in>set pre. name x \<noteq> n" and "\<forall>x\<in>set post. name x \<noteq> n" and "name old = n"
  shows "map (\<lambda>x. if name x = n then new else x) (pre @ old # post) = pre @ new # post"
proof -
  have "map (\<lambda>x. if name x = n then new else x) pre = pre"
    using assms(1) by (induction pre) auto
  moreover have "map (\<lambda>x. if name x = n then new else x) post = post"
    using assms(2) by (induction post) auto
  ultimately show ?thesis using assms(3) by simp
qed

lemma one_entry_under_name:
  assumes "\<forall>x\<in>set pre. name x \<noteq> n" and "\<forall>x\<in>set post. name x \<noteq> n" and "name e = n"
  shows "filter (\<lambda>x. name x = n) (pre @ e # post) = [e]"
proof -
  have "filter (\<lambda>x. name x = n) pre = []" using assms(1) by (induction pre) auto
  moreover have "filter (\<lambda>x. name x = n) post = []" using assms(2) by (induction post) auto
  ultimately show ?thesis using assms(3) by simp
qed

section \<open>Unloading one module\<close>

text \<open>Claim C4. Unloading a non-NULL name that no registered module carries returns
  \<^verbatim>\<open>MICRO_MODULE_ERROR_MODULE_NOT_REGISTERED\<close>; the object behind \<^verbatim>\<open>mm\<close> is the one it was, and
  the trace has not grown: no exit function was called, no handle closed, no entry
  removed.\<close>

theorem exit_unregistered_name_changes_nothing:
  assumes "n \<notin> name ` set (modules mm)"
  shows "micro_module_exit pf (Some mm) (Some n) a tr =
           (MICRO_MODULE_ERROR_MODULE_NOT_REGISTERED, Some mm, tr)"
  using assms by (rule micro_module_exit_absent)

theorem exit_unregistered_name_changes_nothing_witness:
  "''beta'' \<notin> name ` set (modules (sample_mm\<lparr>modules := [gamma, alpha]\<rparr>)) \<and>
   micro_module_exit sample_platform (Some (sample_mm\<lparr>modules := [gamma, alpha]\<rparr>))
       (Some ''beta'') 0 [] =
     (MICRO_MODULE_ERROR_MODULE_NOT_REGISTERED, Some (sample_mm\<lparr>modules := [gamma, alpha]\<rparr>), [])"
proof -
  have h: "''beta'' \<notin> name ` set (modules (sample_mm\<lparr>modules := [gamma, alpha]\<rparr>))"
    by (simp add: sample_defs)
  from exit_unregistered_name_changes_nothing [OF h, of sample_platform 0 "[]"] h
  show ?thesis by simp
qed

text \<open>Claim C6. When \<open>e\<close> is the module registered under \<open>n\<close> and the \<^verbatim>\<open>dlclose\<close> that follows the
  call of its exit entry point fails, \<^verbatim>\<open>micro_module_exit\<close> returns
  \<^verbatim>\<open>MICRO_MODULE_ERROR_CLOSING_MODULE\<close>, the registry is unchanged, and \<open>e\<close> is still what a
  lookup of \<open>n\<close> finds: exited, but still tracked.\<close>

theorem exit_close_failure_keeps_entry:
  assumes "find (\<lambda>x. name x = n) (modules mm) = Some e"
    and "dlclose pf (tr @ [Call (exit_fn e) a]) (dlhandler e) \<noteq> 0"
  shows "micro_module_exit pf (Some mm) (Some n) a tr =
           (MICRO_MODULE_ERROR_CLOSING_MODULE, Some mm,
            tr @ [Call (exit_fn e) a, Dlclose (dlhandler e)]) \<and>
         find (\<lambda>x. name x = n) (registry (micro_module_exit pf (Some mm) (Some n) a tr)) = Some e"
proof -
  from find_first_split [OF assms(1)] obtain pre post
    where ms: "modules mm = pre @ e # post" and ne: "name e = n"
      and pre: "\<forall>x\<in>set pre. name x \<noteq> n" by blast
  from micro_module_exit_present [OF ms pre ne, of pf a tr] assms(2)
  have out: "micro_module_exit pf (Some mm) (Some n) a tr =
           (MICRO_MODULE_ERROR_CLOSING_MODULE, Some mm,
            tr @ [Call (exit_fn e) a, Dlclose (dlhandler e)])" by simp
  with assms(1) show ?thesis by (simp add: registry_def entries_def)
qed

theorem exit_close_failure_keeps_entry_witness:
  "find (\<lambda>x. name x = ''alpha'') (modules (sample_mm\<lparr>modules := [gamma, alpha]\<rparr>)) = Some alpha \<and>
   dlclose stuck_platform ([] @ [Call (exit_fn alpha) 0]) (dlhandler alpha) \<noteq> 0 \<and>
   micro_module_exit stuck_platform (Some (sample_mm\<lparr>modules := [gamma, alpha]\<rparr>))
       (Some ''alpha'') 0 [] =
     (MICRO_MODULE_ERROR_CLOSING_MODULE, Some (sample_mm\<lparr>modules := [gamma, alpha]\<rparr>),
      [Call 12 0, Dlclose 1])"
proof -
  have h1: "find (\<lambda>x. name x = ''alpha'') (modules (sample_mm\<lparr>modules := [gamma, alpha]\<rparr>))
              = Some alpha"
    by (simp add: sample_defs)
  have h2: "dlclose stuck_platform ([] @ [Call (exit_fn alpha) 0]) (dlhandler alpha) \<noteq> 0"
    by (simp add: sample_defs)
  from exit_close_failure_keeps_entry [OF h1 h2] h1 h2
  show ?thesis by (simp add: alpha_def)
qed

text \<open>Claim C10. \<^verbatim>\<open>micro_module_exit\<close> tests for an empty registry before it tests the name:
  with a non-NULL \<^verbatim>\<open>mm\<close> whose registry is empty it returns
  \<^verbatim>\<open>MICRO_MODULE_ERROR_MODULE_NOT_REGISTERED\<close> for every name argument, NULL included, and it
  returns \<^verbatim>\<open>MICRO_MODULE_ERROR_ARG_NULL\<close> exactly when \<^verbatim>\<open>mm\<close> is non-NULL, the registry is
  non-empty and the name is NULL.\<close>

theorem exit_tests_empty_registry_before_name:
  "(modules mm = [] \<longrightarrow>
      micro_module_exit pf (Some mm) module_name a tr =
        (MICRO_MODULE_ERROR_MODULE_NOT_REGISTERED, Some mm, tr)) \<and>
   (status (micro_module_exit pf mmp module_name a tr) = MICRO_MODULE_ERROR_ARG_NULL \<longleftrightarrow>
      (\<exists>m. mmp = Some m \<and> modules m \<noteq> [] \<and> module_name = None))"
proof
  show "modules mm = [] \<longrightarrow>
      micro_module_exit pf (Some mm) module_name a tr =
        (MICRO_MODULE_ERROR_MODULE_NOT_REGISTERED, Some mm, tr)"
    by (simp add: micro_module_exit_def)
next
  show "status (micro_module_exit pf mmp module_name a tr) = MICRO_MODULE_ERROR_ARG_NULL \<longleftrightarrow>
      (\<exists>m. mmp = Some m \<and> modules m \<noteq> [] \<and> module_name = None)"
  proof (cases mmp)
    case None
    then show ?thesis by (simp add: micro_module_exit_def status_def status_defs)
  next
    case (Some m)
    show ?thesis
    proof (cases "module_name")
      case None
      with Some show ?thesis
        by (cases "modules m") (simp_all add: micro_module_exit_def status_def status_defs)
    next
      case (Some n)
      note nm = this
      show ?thesis
      proof (cases "n \<in> name ` set (modules m)")
        case False
        from micro_module_exit_absent [OF False, of pf a tr] nm \<open>mmp = Some m\<close>
        show ?thesis by (simp add: status_def status_defs)
      next
        case True
        then have "\<exists>x\<in>set (modules m). name x = n" by auto
        from split_list_first_prop [OF this] obtain pre e post
          where ms: "modules m = pre @ e # post" and ne: "name e = n"
            and pre: "\<forall>x\<in>set pre. name x \<noteq> n" by blast
        from micro_module_exit_present [OF ms pre ne, of pf a tr] nm \<open>mmp = Some m\<close>
        show ?thesis by (simp add: status_def status_defs)
      qed
    qed
  qed
qed

theorem exit_tests_empty_registry_before_name_witness:
  "modules sample_mm = [] \<and>
   micro_module_exit sample_platform (Some sample_mm) None 0 [] =
     (MICRO_MODULE_ERROR_MODULE_NOT_REGISTERED, Some sample_mm, []) \<and>
   status (micro_module_exit sample_platform (Some (sample_mm\<lparr>modules := [alpha]\<rparr>)) None 0 [])
     = MICRO_MODULE_ERROR_ARG_NULL"
proof -
  have h: "modules sample_mm = []" by (simp add: sample_defs)
  have g: "\<exists>m. Some (sample_mm\<lparr>modules := [alpha]\<rparr>) = Some m \<and> modules m \<noteq> [] \<and>
               (None :: string option) = None"
    by simp
  from exit_tests_empty_registry_before_name
         [of sample_mm sample_platform None 0 "[]" "Some (sample_mm\<lparr>modules := [alpha]\<rparr>)"] h g
  show ?thesis by blast
qed

section \<open>Loading and reloading one module\<close>

lemma sample_reopen_alpha:
  "open_module sample_platform (sample_mm\<lparr>modules := [gamma, alpha]\<rparr>) ''plugins/alpha.so''
       [Dlmopen True ''plugins/alpha.so''] =
     (Inr alpha_again,
      [Dlmopen True ''plugins/alpha.so'', Dlmopen True ''plugins/alpha.so'',
       Dlsym 4 ''micro_module_init'', Dlsym 4 ''micro_module_exit'',
       Dlsym 4 ''micro_module_name''])"
  by (simp add: open_module_def sample_defs)

lemma stuck_reopen_alpha:
  "open_module stuck_platform (sample_mm\<lparr>modules := [gamma, alpha]\<rparr>) ''plugins/alpha.so''
       [Dlmopen True ''plugins/alpha.so''] =
     (Inr alpha_again,
      [Dlmopen True ''plugins/alpha.so'', Dlmopen True ''plugins/alpha.so'',
       Dlsym 4 ''micro_module_init'', Dlsym 4 ''micro_module_exit'',
       Dlsym 4 ''micro_module_name''])"
  by (simp add: open_module_def sample_defs)

lemma sample_open_gamma:
  "open_module sample_platform sample_mm ''plugins/gamma.so'' [] =
     (Inr gamma, [Dlmopen True ''plugins/gamma.so'', Dlsym 3 ''micro_module_init'',
                  Dlsym 3 ''micro_module_exit'', Dlsym 3 ''micro_module_name''])"
  by (simp add: open_module_def sample_defs)

lemma sample_find_alpha:
  "find (\<lambda>x. name x = name alpha_again) (modules (sample_mm\<lparr>modules := [gamma, alpha]\<rparr>))
     = Some alpha"
  by (simp add: sample_defs)

text \<open>Claim C1. Let the file resolve to the module \<open>new\<close>, let \<open>old\<close> be the module registered
  under the same name, and let the registry hold each name once. Then \<^verbatim>\<open>micro_module_init\<close>
  first calls the exit function of \<open>old\<close>, then closes the handle of \<open>old\<close>, and only after a
  successful close writes \<open>new\<close> into the node of \<open>old\<close> (the \<open>Store\<close> event) and calls the init
  function of \<open>new\<close>; when the close fails the registry is left as it was. Either way the
  registry afterwards holds exactly one entry under that name.\<close>

theorem reload_keeps_one_entry_after_teardown:
  assumes "open_module pf mm filename tr = (Inr new, t1)"
    and "find (\<lambda>x. name x = name new) (modules mm) = Some old"
    and "names_unique (modules mm)"
  shows "micro_module_init pf (Some mm) filename a tr =
     (if dlclose pf (t1 @ [Call (exit_fn old) a]) (dlhandler old) \<noteq> 0
      then (MICRO_MODULE_ERROR_CLOSING_MODULE, Some mm,
            t1 @ [Call (exit_fn old) a, Dlclose (dlhandler old), Dlclose (dlhandler new)])
      else (call pf (t1 @ [Call (exit_fn old) a, Dlclose (dlhandler old),
                           Store (map (\<lambda>x. if name x = name new then new else x) (modules mm))])
              (init_fn new) a,
            Some (mm\<lparr>modules := map (\<lambda>x. if name x = name new then new else x) (modules mm)\<rparr>),
            t1 @ [Call (exit_fn old) a, Dlclose (dlhandler old),
                  Store (map (\<lambda>x. if name x = name new then new else x) (modules mm)),
                  Call (init_fn new) a])) \<and>
   length (filter (\<lambda>x. name x = name new)
             (registry (micro_module_init pf (Some mm) filename a tr))) = 1"
proof -
  from find_first_split [OF assms(2)] obtain pre post
    where ms: "modules mm = pre @ old # post" and old: "name old = name new"
      and pre: "\<forall>x\<in>set pre. name x \<noteq> name new" by blast
  from unique_name_elsewhere [of pre old post "name new"] assms(3) ms old
  have post: "\<forall>x\<in>set post. name x \<noteq> name new" by simp
  have repl: "map (\<lambda>x. if name x = name new then new else x) (modules mm) = pre @ new # post"
    using replace_by_name [OF pre post old] ms by simp
  have init: "micro_module_init pf (Some mm) filename a tr =
     (if dlclose pf (t1 @ [Call (exit_fn old) a]) (dlhandler old) \<noteq> 0
      then (MICRO_MODULE_ERROR_CLOSING_MODULE, Some mm,
            t1 @ [Call (exit_fn old) a, Dlclose (dlhandler old), Dlclose (dlhandler new)])
      else (call pf (t1 @ [Call (exit_fn old) a, Dlclose (dlhandler old),
                           Store (pre @ new # post)]) (init_fn new) a,
            Some (mm\<lparr>modules := pre @ new # post\<rparr>),
            t1 @ [Call (exit_fn old) a, Dlclose (dlhandler old),
                  Store (pre @ new # post), Call (init_fn new) a]))"
    by (rule micro_module_init_registered [OF assms(1) ms pre old])
  have one_old: "filter (\<lambda>x. name x = name new) (pre @ old # post) = [old]"
    by (rule one_entry_under_name [OF pre post old])
  have one_new: "filter (\<lambda>x. name x = name new) (pre @ new # post) = [new]"
    by (rule one_entry_under_name [OF pre post refl])
  have "length (filter (\<lambda>x. name x = name new)
             (registry (micro_module_init pf (Some mm) filename a tr))) = 1"
    using one_old one_new ms by (simp add: init registry_def entries_def)
  with init repl show ?thesis by simp
qed

theorem reload_keeps_one_entry_after_teardown_witness:
  "names_unique (modules (sample_mm\<lparr>modules := [gamma, alpha]\<rparr>)) \<and>
   micro_module_init sample_platform (Some (sample_mm\<lparr>modules := [gamma, alpha]\<rparr>))
       ''plugins/alpha.so'' 0 [Dlmopen True ''plugins/alpha.so''] =
     (0, Some (sample_mm\<lparr>modules := [gamma, alpha_again]\<rparr>),
      [Dlmopen True ''plugins/alpha.so'', Dlmopen True ''plugins/alpha.so'',
       Dlsym 4 ''micro_module_init'', Dlsym 4 ''micro_module_exit'',
       Dlsym 4 ''micro_module_name'',
       Call 12 0, Dlclose 1, Store [gamma, alpha_again], Call 41 0]) \<and>
   length (filter (\<lambda>x. name x = ''alpha'')
     (registry (micro_module_init sample_platform (Some (sample_mm\<lparr>modules := [gamma, alpha]\<rparr>))
       ''plugins/alpha.so'' 0 [Dlmopen True ''plugins/alpha.so'']))) = 1"
proof -
  have h3: "names_unique (modules (sample_mm\<lparr>modules := [gamma, alpha]\<rparr>))"
    by (simp add: names_unique_def sample_defs)
  have n: "name alpha_again = ''alpha''" by (simp add: alpha_again_def)
  have c: "dlclose sample_platform tr h = 0" "call sample_platform tr 41 0 = 0" for tr h
    by (simp_all add: sample_defs)
  have f: "exit_fn alpha = 12" "dlhandler alpha = 1" "init_fn alpha_again = 41"
    "name alpha = ''alpha''" "name gamma = ''gamma''"
    by (simp_all add: sample_defs)
  from reload_keeps_one_entry_after_teardown [OF sample_reopen_alpha sample_find_alpha h3, of 0]
  show ?thesis using h3 by (simp add: n c f registry_def entries_def)
qed

text \<open>Claim C2. When the file resolves to a module whose name is registered and the
  \<^verbatim>\<open>dlclose\<close> of the old entry's handle fails, \<^verbatim>\<open>micro_module_init\<close> returns
  \<^verbatim>\<open>MICRO_MODULE_ERROR_CLOSING_MODULE\<close>, and the last thing it does before returning is to
  call \<^verbatim>\<open>dlclose\<close> on the handle that its own \<^verbatim>\<open>dlmopen\<close> has just returned.\<close>

theorem reload_close_failure_closes_new_handle:
  assumes "open_module pf mm filename tr = (Inr new, t1)"
    and "find (\<lambda>x. name x = name new) (modules mm) = Some old"
    and "dlclose pf (t1 @ [Call (exit_fn old) a]) (dlhandler old) \<noteq> 0"
  shows "dlmopen pf tr (use_new_namespace mm) filename = Some (dlhandler new) \<and>
     micro_module_init pf (Some mm) filename a tr =
       (MICRO_MODULE_ERROR_CLOSING_MODULE, Some mm,
        t1 @ [Call (exit_fn old) a, Dlclose (dlhandler old), Dlclose (dlhandler new)])"
proof -
  from find_first_split [OF assms(2)] obtain pre post
    where ms: "modules mm = pre @ old # post" and old: "name old = name new"
      and pre: "\<forall>x\<in>set pre. name x \<noteq> name new" by blast
  from micro_module_init_registered [OF assms(1) ms pre old, of a] assms(3)
  have "micro_module_init pf (Some mm) filename a tr =
       (MICRO_MODULE_ERROR_CLOSING_MODULE, Some mm,
        t1 @ [Call (exit_fn old) a, Dlclose (dlhandler old), Dlclose (dlhandler new)])"
    by simp
  with open_module_Inr [OF assms(1)] show ?thesis by simp
qed

theorem reload_close_failure_closes_new_handle_witness:
  "dlclose stuck_platform
     ([Dlmopen True ''plugins/alpha.so'', Dlmopen True ''plugins/alpha.so'',
       Dlsym 4 ''micro_module_init'', Dlsym 4 ''micro_module_exit'',
       Dlsym 4 ''micro_module_name''] @ [Call (exit_fn alpha) 0]) (dlhandler alpha) \<noteq> 0 \<and>
   dlmopen stuck_platform [Dlmopen True ''plugins/alpha.so''] True ''plugins/alpha.so'' = Some 4 \<and>
   micro_module_init stuck_platform (Some (sample_mm\<lparr>modules := [gamma, alpha]\<rparr>))
       ''plugins/alpha.so'' 0 [Dlmopen True ''plugins/alpha.so''] =
     (MICRO_MODULE_ERROR_CLOSING_MODULE, Some (sample_mm\<lparr>modules := [gamma, alpha]\<rparr>),
      [Dlmopen True ''plugins/alpha.so'', Dlmopen True ''plugins/alpha.so'',
       Dlsym 4 ''micro_module_init'', Dlsym 4 ''micro_module_exit'',
       Dlsym 4 ''micro_module_name'',
       Call 12 0, Dlclose 1, Dlclose 4])"
proof -
  have h3: "dlclose stuck_platform
     ([Dlmopen True ''plugins/alpha.so'', Dlmopen True ''plugins/alpha.so'',
       Dlsym 4 ''micro_module_init'', Dlsym 4 ''micro_module_exit'',
       Dlsym 4 ''micro_module_name''] @ [Call (exit_fn alpha) 0]) (dlhandler alpha) \<noteq> 0"
    by (simp add: sample_defs)
  have f: "exit_fn alpha = 12" "dlhandler alpha = 1" "dlhandler alpha_again = 4"
    "use_new_namespace (sample_mm\<lparr>modules := [gamma, alpha]\<rparr>) = True"
    by (simp_all add: sample_defs)
  from reload_close_failure_closes_new_handle [OF stuck_reopen_alpha sample_find_alpha h3]
  show ?thesis using h3 by (simp add: f)
qed

text \<open>Claim C3. When the file has been opened and resolved to \<open>new\<close>, the registration has
  gone through, and the init entry point of \<open>new\<close> returns a non-zero value, then
  \<^verbatim>\<open>micro_module_init\<close> returns exactly that value, and the registry it leaves is the one
  the registration produced: \<open>new\<close> is what a lookup of its name finds.\<close>

theorem init_failure_keeps_registration:
  assumes "open_module pf mm filename tr = (Inr new, t1)"
    and "register_module pf a new (modules mm) t1 = (Inr found, ms, t2)"
    and "call pf t2 (init_fn new) a \<noteq> 0"
  shows "micro_module_init pf (Some mm) filename a tr =
           (call pf t2 (init_fn new) a, Some (mm\<lparr>modules := ms\<rparr>), t2 @ [Call (init_fn new) a]) \<and>
         find (\<lambda>x. name x = name new) ms = Some new"
  using micro_module_init_registering [OF assms(1), of a] assms(2)
    register_module_makes_first [OF assms(2)]
  by simp

theorem init_failure_keeps_registration_witness:
  "register_module sample_platform 0 gamma (modules sample_mm)
       [Dlmopen True ''plugins/gamma.so'', Dlsym 3 ''micro_module_init'',
        Dlsym 3 ''micro_module_exit'', Dlsym 3 ''micro_module_name''] =
     (Inr True, [gamma],
      [Dlmopen True ''plugins/gamma.so'', Dlsym 3 ''micro_module_init'',
       Dlsym 3 ''micro_module_exit'', Dlsym 3 ''micro_module_name'', Store [gamma]]) \<and>
   micro_module_init sample_platform (Some sample_mm) ''plugins/gamma.so'' 0 [] =
     (7, Some (sample_mm\<lparr>modules := [gamma]\<rparr>),
      [Dlmopen True ''plugins/gamma.so'', Dlsym 3 ''micro_module_init'',
       Dlsym 3 ''micro_module_exit'', Dlsym 3 ''micro_module_name'', Store [gamma],
       Call 31 0]) \<and>
   find (\<lambda>x. name x = ''gamma'') [gamma] = Some gamma"
proof -
  have h2: "register_module sample_platform 0 gamma (modules sample_mm)
       [Dlmopen True ''plugins/gamma.so'', Dlsym 3 ''micro_module_init'',
        Dlsym 3 ''micro_module_exit'', Dlsym 3 ''micro_module_name''] =
     (Inr True, [gamma],
      [Dlmopen True ''plugins/gamma.so'', Dlsym 3 ''micro_module_init'',
       Dlsym 3 ''micro_module_exit'', Dlsym 3 ''micro_module_name'', Store [gamma]])"
    by (simp add: register_module_def push_module_def sample_defs)
  have f: "init_fn gamma = 31" "name gamma = ''gamma''" by (simp_all add: gamma_def)
  have c: "call sample_platform tr 31 0 = 7" for tr by (simp add: sample_defs)
  have h3: "call sample_platform
       [Dlmopen True ''plugins/gamma.so'', Dlsym 3 ''micro_module_init'',
        Dlsym 3 ''micro_module_exit'', Dlsym 3 ''micro_module_name'', Store [gamma]]
       (init_fn gamma) 0 \<noteq> 0"
    by (simp add: f c)
  from init_failure_keeps_registration [OF sample_open_gamma h2 h3] h2
  show ?thesis by (simp add: f c)
qed

section \<open>What one unload leaves behind\<close>

lemma closes_follow_exit_append:
  "closes_follow_exit ms a None prev (xs @ ys) \<longleftrightarrow>
     closes_follow_exit ms a None prev xs \<and>
     closes_follow_exit ms a None (if xs = [] then prev else Some (last xs)) ys"
  by (induction xs arbitrary: prev) (auto split: event.splits)

lemma closes_follow_exit_mono:
  "set ms \<subseteq> set ms' \<Longrightarrow> closes_follow_exit ms a own prev evs \<Longrightarrow>
   closes_follow_exit ms' a own prev evs"
  by (induction evs arbitrary: prev) (auto split: event.splits)

lemma teardown_follows_exit:
  "e \<in> set ms \<Longrightarrow>
   closes_follow_exit ms a own prev (Call (exit_fn e) a # Dlclose (dlhandler e) # evs) =
   closes_follow_exit ms a own (Some (Dlclose (dlhandler e))) evs"
  by auto

lemma micro_module_exit_cases:
  "(\<exists>r. micro_module_exit pf mmp nm a tr = (r, mmp, tr) \<and> r \<noteq> MICRO_MODULE_OK) \<or>
   (\<exists>mm n pre e post.
      mmp = Some mm \<and> nm = Some n \<and> modules mm = pre @ e # post \<and> name e = n \<and>
      (\<forall>x\<in>set pre. name x \<noteq> n) \<and>
      micro_module_exit pf mmp nm a tr =
        (if dlclose pf (tr @ [Call (exit_fn e) a]) (dlhandler e) \<noteq> 0
         then (MICRO_MODULE_ERROR_CLOSING_MODULE, Some mm,
               tr @ [Call (exit_fn e) a, Dlclose (dlhandler e)])
         else (MICRO_MODULE_OK, Some (mm\<lparr>modules := pre @ post\<rparr>),
               tr @ [Call (exit_fn e) a, Dlclose (dlhandler e), Store (pre @ post)])))"
proof (cases mmp)
  case None
  then show ?thesis by (simp add: micro_module_exit_def status_defs)
next
  case (Some mm)
  note mm = this
  show ?thesis
  proof (cases "nm")
    case None
    with mm show ?thesis
      by (cases "modules mm") (simp_all add: micro_module_exit_def status_defs)
  next
    case (Some n)
    note nm = this
    show ?thesis
    proof (cases "n \<in> name ` set (modules mm)")
      case False
      from micro_module_exit_absent [OF False, of pf a tr] nm mm
      show ?thesis by (simp add: status_defs)
    next
      case True
      then have "\<exists>x\<in>set (modules mm). name x = n" by auto
      from split_list_first_prop [OF this] obtain pre e post
        where ms: "modules mm = pre @ e # post" and ne: "name e = n"
          and pre: "\<forall>x\<in>set pre. name x \<noteq> n" by blast
      from micro_module_exit_present [OF ms pre ne, of pf a tr] nm mm ms ne pre
      show ?thesis by blast
    qed
  qed
qed

lemma names_unique_remove:
  "names_unique (pre @ e # post) \<Longrightarrow> names_unique (pre @ post)"
  by (auto simp: names_unique_def)

lemma micro_module_exit_removes_at_most_one:
  "registry (micro_module_exit pf mmp nm a tr) = entries mmp \<or>
   (\<exists>pre e post. entries mmp = pre @ e # post \<and>
      registry (micro_module_exit pf mmp nm a tr) = pre @ post)"
proof -
  let ?out = "micro_module_exit pf mmp nm a tr"
  from micro_module_exit_cases [of pf mmp nm a tr]
  consider (same) r where "?out = (r, mmp, tr)"
    | (hit) mm pre e post where "mmp = Some mm" "modules mm = pre @ e # post"
        "?out = (MICRO_MODULE_ERROR_CLOSING_MODULE, Some mm,
                 tr @ [Call (exit_fn e) a, Dlclose (dlhandler e)]) \<or>
         ?out = (MICRO_MODULE_OK, Some (mm\<lparr>modules := pre @ post\<rparr>),
                 tr @ [Call (exit_fn e) a, Dlclose (dlhandler e), Store (pre @ post)])"
    by (auto split: if_splits)
  then show ?thesis
  proof cases
    case same
    then show ?thesis by (simp add: registry_def)
  next
    case hit
    from hit(3) show ?thesis
    proof
      assume "?out = (MICRO_MODULE_ERROR_CLOSING_MODULE, Some mm,
                 tr @ [Call (exit_fn e) a, Dlclose (dlhandler e)])"
      with hit(1) show ?thesis by (simp add: registry_def)
    next
      assume "?out = (MICRO_MODULE_OK, Some (mm\<lparr>modules := pre @ post\<rparr>),
                 tr @ [Call (exit_fn e) a, Dlclose (dlhandler e), Store (pre @ post)])"
      with hit(1,2) have "entries mmp = pre @ e # post \<and> registry ?out = pre @ post"
        by (simp add: registry_def entries_def)
      then show ?thesis by blast
    qed
  qed
qed

lemma micro_module_exit_unique:
  assumes "names_unique (entries mmp)"
  shows "names_unique (registry (micro_module_exit pf mmp nm a tr))"
  using micro_module_exit_removes_at_most_one [of pf mmp nm a tr] assms
  by (auto dest: names_unique_remove)

lemma micro_module_exit_subset:
  "set (registry (micro_module_exit pf mmp nm a tr)) \<subseteq> set (entries mmp)"
  using micro_module_exit_removes_at_most_one [of pf mmp nm a tr]
  by auto

lemma micro_module_exit_events:
  "\<exists>evs. events (micro_module_exit pf mmp nm a tr) = tr @ evs \<and>
         (\<forall>prev. closes_follow_exit (entries mmp) a None prev evs)"
  using micro_module_exit_cases [of pf mmp nm a tr]
  by (auto simp: events_def entries_def)

lemma micro_module_exit_pointer:
  "(fst (snd (micro_module_exit pf mmp nm a tr)) = None) = (mmp = None)"
  using micro_module_exit_cases [of pf mmp nm a tr]
  by (auto split: if_splits)

section \<open>Unloading every module\<close>

lemma exit_all_loop_step:
  "exit_all_loop pf mmp a (it # rest) tr =
     (if status (micro_module_exit pf mmp (Some (name it)) a tr) \<noteq> MICRO_MODULE_OK
      then micro_module_exit pf mmp (Some (name it)) a tr
      else exit_all_loop pf (fst (snd (micro_module_exit pf mmp (Some (name it)) a tr))) a rest
             (events (micro_module_exit pf mmp (Some (name it)) a tr)))"
  by (simp add: status_def events_def split: prod.splits)

declare exit_all_loop.simps(2) [simp del]

text \<open>When the loop of \<^verbatim>\<open>micro_module_exit_all\<close> starts, the cursor is the head of the list.
  The unload by the name of the head takes the head branch of \<^verbatim>\<open>micro_module_exit\<close>, so
  after a successful unload the cursor \<^verbatim>\<open>next\<close> is the head again: the nodes the cursor
  has still to visit are always the list itself.\<close>

lemma exit_all_loop_head:
  "exit_all_loop pf (Some (mm\<lparr>modules := it # rest\<rparr>)) a (it # rest) tr =
     (if dlclose pf (tr @ [Call (exit_fn it) a]) (dlhandler it) \<noteq> 0
      then (MICRO_MODULE_ERROR_CLOSING_MODULE, Some (mm\<lparr>modules := it # rest\<rparr>),
            tr @ [Call (exit_fn it) a, Dlclose (dlhandler it)])
      else exit_all_loop pf (Some (mm\<lparr>modules := rest\<rparr>)) a rest
             (tr @ [Call (exit_fn it) a, Dlclose (dlhandler it), Store rest]))"
  by (simp add: exit_all_loop.simps micro_module_exit_def Let_def status_defs)

lemma exit_all_loop_pointer:
  "(fst (snd (exit_all_loop pf mmp a its tr)) = None) = (mmp = None)"
proof (induction its arbitrary: mmp tr)
  case Nil
  show ?case by simp
next
  case (Cons it rest)
  show ?case
    unfolding exit_all_loop_step
    using Cons.IH micro_module_exit_pointer [of pf mmp "Some (name it)" a tr]
    by simp
qed

lemma exit_all_loop_subset:
  "set (registry (exit_all_loop pf mmp a its tr)) \<subseteq> set (entries mmp)"
proof (induction its arbitrary: mmp tr)
  case Nil
  show ?case by (simp add: registry_def)
next
  case (Cons it rest)
  let ?out = "micro_module_exit pf mmp (Some (name it)) a tr"
  have one: "set (registry ?out) \<subseteq> set (entries mmp)"
    by (rule micro_module_exit_subset)
  show ?case
  proof (cases "status ?out \<noteq> MICRO_MODULE_OK")
    case True
    with one show ?thesis by (simp add: exit_all_loop_step)
  next
    case False
    from Cons.IH [of "fst (snd ?out)" "events ?out"]
    have "set (registry (exit_all_loop pf (fst (snd ?out)) a rest (events ?out)))
            \<subseteq> set (registry ?out)"
      by (simp add: registry_def)
    with one False show ?thesis by (simp add: exit_all_loop_step)
  qed
qed

lemma exit_all_loop_unique:
  "names_unique (entries mmp) \<Longrightarrow> names_unique (registry (exit_all_loop pf mmp a its tr))"
proof (induction its arbitrary: mmp tr)
  case Nil
  then show ?case by (simp add: registry_def)
next
  case (Cons it rest)
  let ?out = "micro_module_exit pf mmp (Some (name it)) a tr"
  have one: "names_unique (registry ?out)"
    using Cons.prems by (rule micro_module_exit_unique)
  show ?case
  proof (cases "status ?out \<noteq> MICRO_MODULE_OK")
    case True
    with one show ?thesis by (simp add: exit_all_loop_step)
  next
    case False
    from one have "names_unique (entries (fst (snd ?out)))" by (simp add: registry_def)
    from Cons.IH [OF this, of "events ?out"] False
    show ?thesis by (simp add: exit_all_loop_step)
  qed
qed

lemma exit_all_loop_events:
  "\<exists>evs. events (exit_all_loop pf mmp a its tr) = tr @ evs \<and>
         (\<forall>prev. closes_follow_exit (entries mmp) a None prev evs)"
proof (induction its arbitrary: mmp tr)
  case Nil
  show ?case by (simp add: events_def)
next
  case (Cons it rest)
  let ?out = "micro_module_exit pf mmp (Some (name it)) a tr"
  from micro_module_exit_events [of pf mmp "Some (name it)" a tr]
  obtain evs1 where tr1: "events ?out = tr @ evs1"
    and ord1: "\<forall>prev. closes_follow_exit (entries mmp) a None prev evs1"
    by blast
  show ?case
  proof (cases "status ?out \<noteq> MICRO_MODULE_OK")
    case True
    with tr1 ord1 show ?thesis by (auto simp: exit_all_loop_step)
  next
    case False
    from Cons.IH [of "fst (snd ?out)" "events ?out"] obtain evs2
      where tr2: "events (exit_all_loop pf (fst (snd ?out)) a rest (events ?out))
                    = events ?out @ evs2"
        and ord2: "\<forall>prev. closes_follow_exit (entries (fst (snd ?out))) a None prev evs2"
      by blast
    have "set (entries (fst (snd ?out))) \<subseteq> set (entries mmp)"
      using micro_module_exit_subset [of pf mmp "Some (name it)" a tr]
      by (simp add: registry_def)
    with ord2 have ord2': "\<forall>prev. closes_follow_exit (entries mmp) a None prev evs2"
      by (blast intro: closes_follow_exit_mono)
    have "events (exit_all_loop pf mmp a (it # rest) tr) = tr @ (evs1 @ evs2)"
      using False tr2 tr1 by (simp add: exit_all_loop_step)
    moreover have "\<forall>prev. closes_follow_exit (entries mmp) a None prev (evs1 @ evs2)"
      using ord1 ord2' by (simp add: closes_follow_exit_append)
    ultimately show ?thesis by blast
  qed
qed

lemma micro_module_exit_all_empty:
  "modules mm = [] \<Longrightarrow>
   micro_module_exit_all pf (Some mm) a tr = (MICRO_MODULE_OK, Some mm, tr @ [Store []])"
proof -
  assume e: "modules mm = []"
  then have "mm\<lparr>modules := []\<rparr> = mm" by simp
  with e show ?thesis by (simp add: micro_module_exit_all_def)
qed

lemma micro_module_exit_all_ok:
  assumes "micro_module_exit_all pf mmp a tr = (MICRO_MODULE_OK, mmp', tr')"
  shows "\<exists>mm'. mmp' = Some mm' \<and> modules mm' = []"
proof (cases mmp)
  case None
  with assms show ?thesis by (simp add: micro_module_exit_all_def status_defs)
next
  case (Some mm)
  obtain err p t where lp: "exit_all_loop pf (Some mm) a (modules mm) tr = (err, p, t)"
    by (cases "exit_all_loop pf (Some mm) a (modules mm) tr") auto
  from exit_all_loop_pointer [of pf "Some mm" a "modules mm" tr] lp
  obtain m where p: "p = Some m" by auto
  from assms Some lp p show ?thesis
    by (auto simp: micro_module_exit_all_def split: if_splits)
qed

lemma sample_unload_all:
  "micro_module_exit_all sample_platform (Some (sample_mm\<lparr>modules := [gamma, alpha]\<rparr>)) 0 [] =
     (MICRO_MODULE_OK, Some sample_mm,
      [Call 32 0, Dlclose 3, Store [alpha], Call 12 0, Dlclose 1, Store [], Store []])"
  by (simp add: micro_module_exit_all_def exit_all_loop.simps micro_module_exit_def
        sample_defs MICRO_MODULE_OK_def)

text \<open>Claim C7. On an empty registry \<^verbatim>\<open>micro_module_exit_all\<close> returns OK and does nothing but
  write NULL to \<^verbatim>\<open>mm->modules\<close>: no exit function is called and no handle closed. Whenever
  a call returns OK, \<^verbatim>\<open>mm\<close> is non-NULL and the registry it leaves is empty, so the next
  call (on any platform, with any argument) returns OK as well and leaves the same
  object.\<close>

theorem exit_all_on_empty_and_twice:
  "(modules mm = [] \<longrightarrow>
      micro_module_exit_all pf (Some mm) a tr = (MICRO_MODULE_OK, Some mm, tr @ [Store []])) \<and>
   (micro_module_exit_all pf mmp a tr = (MICRO_MODULE_OK, mmp', tr') \<longrightarrow>
      mmp' \<noteq> None \<and> registry (MICRO_MODULE_OK, mmp', tr') = [] \<and>
      micro_module_exit_all pf' mmp' a' tr' = (MICRO_MODULE_OK, mmp', tr' @ [Store []]))"
proof (intro conjI impI)
  assume "modules mm = []"
  then show "micro_module_exit_all pf (Some mm) a tr = (MICRO_MODULE_OK, Some mm, tr @ [Store []])"
    by (rule micro_module_exit_all_empty)
next
  assume ok: "micro_module_exit_all pf mmp a tr = (MICRO_MODULE_OK, mmp', tr')"
  from micro_module_exit_all_ok [OF ok] obtain mm'
    where m: "mmp' = Some mm'" "modules mm' = []" by blast
  from m show "mmp' \<noteq> None" by simp
  from m show "registry (MICRO_MODULE_OK, mmp', tr') = []"
    by (simp add: registry_def entries_def)
  from m micro_module_exit_all_empty [of mm' pf' a' tr']
  show "micro_module_exit_all pf' mmp' a' tr' = (MICRO_MODULE_OK, mmp', tr' @ [Store []])"
    by simp
qed

theorem exit_all_on_empty_and_twice_witness:
  "modules sample_mm = [] \<and>
   micro_module_exit_all sample_platform (Some sample_mm) 0 [] =
     (MICRO_MODULE_OK, Some sample_mm, [Store []]) \<and>
   micro_module_exit_all sample_platform (Some (sample_mm\<lparr>modules := [gamma, alpha]\<rparr>)) 0 [] =
     (MICRO_MODULE_OK, Some sample_mm,
      [Call 32 0, Dlclose 3, Store [alpha], Call 12 0, Dlclose 1, Store [], Store []]) \<and>
   registry (MICRO_MODULE_OK, Some sample_mm,
      [Call 32 0, Dlclose 3, Store [alpha], Call 12 0, Dlclose 1, Store [], Store []]) = [] \<and>
   micro_module_exit_all sample_platform (Some sample_mm) 0
      [Call 32 0, Dlclose 3, Store [alpha], Call 12 0, Dlclose 1, Store [], Store []] =
     (MICRO_MODULE_OK, Some sample_mm,
      [Call 32 0, Dlclose 3, Store [alpha], Call 12 0, Dlclose 1, Store [], Store [], Store []])"
proof -
  have h: "modules sample_mm = []" by (simp add: sample_defs)
  from exit_all_on_empty_and_twice
         [where mm = sample_mm and pf = sample_platform and a = 0 and tr = "[]"
            and mmp = "Some (sample_mm\<lparr>modules := [gamma, alpha]\<rparr>)"
            and mmp' = "Some sample_mm" and pf' = sample_platform and a' = 0
            and tr' = "[Call 32 0, Dlclose 3, Store [alpha], Call 12 0, Dlclose 1, Store [],
                        Store []]"]
       h sample_unload_all
  show ?thesis by simp
qed

text \<open>The second part speaks of a call that follows a successful one. A bulk unload that
  fails leaves the registry as the failing unload left it, and the next one can fail in the
  same way: on the platform whose \<^verbatim>\<open>dlclose\<close> always fails, both calls stop at the first
  module.\<close>

lemma stuck_unload_all_twice:
  "micro_module_exit_all stuck_platform (Some (sample_mm\<lparr>modules := [gamma, alpha]\<rparr>)) 0 [] =
     (MICRO_MODULE_ERROR_CLOSING_MODULE, Some (sample_mm\<lparr>modules := [gamma, alpha]\<rparr>),
      [Call 32 0, Dlclose 3]) \<and>
   micro_module_exit_all stuck_platform (Some (sample_mm\<lparr>modules := [gamma, alpha]\<rparr>)) 0
      [Call 32 0, Dlclose 3] =
     (MICRO_MODULE_ERROR_CLOSING_MODULE, Some (sample_mm\<lparr>modules := [gamma, alpha]\<rparr>),
      [Call 32 0, Dlclose 3, Call 32 0, Dlclose 3])"
  by (simp add: micro_module_exit_all_def exit_all_loop.simps micro_module_exit_def
        sample_defs status_defs)

section \<open>What one load leaves behind\<close>

lemma open_module_Inl_nonzero:
  "open_module pf mm f tr = (Inl err, t1) \<Longrightarrow> err \<noteq> MICRO_MODULE_OK"
  by (auto simp: open_module_def Let_def status_defs split: option.splits)

lemma open_module_events:
  "\<exists>oe. snd (open_module pf mm f tr) = tr @ oe \<and>
        (\<forall>ns g. Dlmopen ns g \<in> set oe \<longrightarrow> g = f) \<and>
        (\<forall>prev. closes_follow_exit ms a (dlmopen pf tr (use_new_namespace mm) f) prev oe)"
  by (auto simp: open_module_def Let_def split: option.splits)

lemma micro_module_init_cases:
  obtains
    (open_failed) err t1 where "open_module pf mm f tr = (Inl err, t1)"
      "micro_module_init pf (Some mm) f a tr = (err, Some mm, t1)"
  | (no_memory) new t1 where "open_module pf mm f tr = (Inr new, t1)"
      "name new \<notin> name ` set (modules mm)"
      "micro_module_init pf (Some mm) f a tr = (MICRO_MODULE_ERROR_ALLOCATING_MEMORY, Some mm, t1)"
  | (pushed) new t1 where "open_module pf mm f tr = (Inr new, t1)"
      "name new \<notin> name ` set (modules mm)"
      "micro_module_init pf (Some mm) f a tr =
         (call pf (t1 @ [Store (new # modules mm)]) (init_fn new) a,
          Some (mm\<lparr>modules := new # modules mm\<rparr>),
          t1 @ [Store (new # modules mm), Call (init_fn new) a])"
  | (close_failed) new t1 pre old post where "open_module pf mm f tr = (Inr new, t1)"
      "modules mm = pre @ old # post" "name old = name new"
      "\<forall>x\<in>set pre. name x \<noteq> name new"
      "micro_module_init pf (Some mm) f a tr =
         (MICRO_MODULE_ERROR_CLOSING_MODULE, Some mm,
          t1 @ [Call (exit_fn old) a, Dlclose (dlhandler old), Dlclose (dlhandler new)])"
  | (replaced) new t1 pre old post where "open_module pf mm f tr = (Inr new, t1)"
      "modules mm = pre @ old # post" "name old = name new"
      "\<forall>x\<in>set pre. name x \<noteq> name new"
      "micro_module_init pf (Some mm) f a tr =
         (call pf (t1 @ [Call (exit_fn old) a, Dlclose (dlhandler old),
                         Store (pre @ new # post)]) (init_fn new) a,
          Some (mm\<lparr>modules := pre @ new # post\<rparr>),
          t1 @ [Call (exit_fn old) a, Dlclose (dlhandler old),
                Store (pre @ new # post), Call (init_fn new) a])"
proof -
  obtain x t1 where op: "open_module pf mm f tr = (x, t1)"
    by (cases "open_module pf mm f tr") auto
  show thesis
  proof (cases x)
    case (Inl err)
    with op micro_module_init_open_failed [of pf mm f tr err t1 a] open_failed
    show thesis by simp
  next
    case (Inr new)
    with op have op': "open_module pf mm f tr = (Inr new, t1)" by simp
    show thesis
    proof (cases "name new \<in> name ` set (modules mm)")
      case False
      from micro_module_init_fresh [OF op' False, of a] no_memory [OF op' False] pushed [OF op' False]
      show thesis by (cases "malloc pf t1") simp_all
    next
      case True
      then have "\<exists>x\<in>set (modules mm). name x = name new" by auto
      from split_list_first_prop [OF this] obtain pre old post
        where ms: "modules mm = pre @ old # post" and old: "name old = name new"
          and pre: "\<forall>x\<in>set pre. name x \<noteq> name new" by blast
      from micro_module_init_registered [OF op' ms pre old, of a]
        close_failed [OF op' ms old pre] replaced [OF op' ms old pre]
      show thesis
        by (cases "dlclose pf (t1 @ [Call (exit_fn old) a]) (dlhandler old) \<noteq> 0") simp_all
    qed
  qed
qed

lemma micro_module_init_null:
  "micro_module_init pf None f a tr = (MICRO_MODULE_ERROR_IS_NULL, None, tr)"
  by (simp add: micro_module_init_def)

lemma micro_module_init_pointer:
  "(fst (snd (micro_module_init pf mmp f a tr)) = None) = (mmp = None)"
proof (cases mmp)
  case None
  then show ?thesis by (simp add: micro_module_init_null)
next
  case (Some mm)
  show ?thesis
    by (rule micro_module_init_cases [of pf mm f tr a]) (simp_all add: Some)
qed

lemma micro_module_init_names:
  "map name (registry (micro_module_init pf mmp f a tr)) = map name (entries mmp) \<or>
   (\<exists>n. n \<notin> name ` set (entries mmp) \<and>
        map name (registry (micro_module_init pf mmp f a tr)) = n # map name (entries mmp))"
proof (cases mmp)
  case None
  then show ?thesis by (simp add: micro_module_init_null registry_def)
next
  case (Some mm)
  show ?thesis
    by (rule micro_module_init_cases [of pf mm f tr a])
       (auto simp: Some registry_def entries_def)
qed

lemma micro_module_init_unique:
  assumes "names_unique (entries mmp)"
  shows "names_unique (registry (micro_module_init pf mmp f a tr))"
  using micro_module_init_names [of pf mmp f a tr] assms
  by (auto simp: names_unique_def)

lemma micro_module_init_events:
  "\<exists>evs. events (micro_module_init pf (Some mm) f a tr) = tr @ evs \<and>
     (\<forall>ns g. Dlmopen ns g \<in> set evs \<longrightarrow> g = f) \<and>
     (\<forall>prev. closes_follow_exit (modules mm) a (dlmopen pf tr (use_new_namespace mm) f) prev evs)"
proof (rule micro_module_init_cases [of pf mm f tr a])
  fix err t1
  assume "open_module pf mm f tr = (Inl err, t1)"
    and "micro_module_init pf (Some mm) f a tr = (err, Some mm, t1)"
  with open_module_events [of pf mm f tr "modules mm" a]
  show ?thesis by (simp add: events_def)
next
  fix new t1
  assume "open_module pf mm f tr = (Inr new, t1)"
    and "micro_module_init pf (Some mm) f a tr =
           (MICRO_MODULE_ERROR_ALLOCATING_MEMORY, Some mm, t1)"
  with open_module_events [of pf mm f tr "modules mm" a]
  show ?thesis by (simp add: events_def)
next
  fix new t1
  assume op: "open_module pf mm f tr = (Inr new, t1)"
    and "micro_module_init pf (Some mm) f a tr =
         (call pf (t1 @ [Store (new # modules mm)]) (init_fn new) a,
          Some (mm\<lparr>modules := new # modules mm\<rparr>),
          t1 @ [Store (new # modules mm), Call (init_fn new) a])"
  with open_module_Inr [OF op]
  show ?thesis by (simp add: events_def)
next
  fix new t1 pre old post
  assume op: "open_module pf mm f tr = (Inr new, t1)"
    and "modules mm = pre @ old # post"
    and "micro_module_init pf (Some mm) f a tr =
         (MICRO_MODULE_ERROR_CLOSING_MODULE, Some mm,
          t1 @ [Call (exit_fn old) a, Dlclose (dlhandler old), Dlclose (dlhandler new)])"
  with open_module_Inr [OF op]
  show ?thesis by (simp add: events_def)
next
  fix new t1 pre old post
  assume op: "open_module pf mm f tr = (Inr new, t1)"
    and "modules mm = pre @ old # post"
    and "micro_module_init pf (Some mm) f a tr =
         (call pf (t1 @ [Call (exit_fn old) a, Dlclose (dlhandler old),
                         Store (pre @ new # post)]) (init_fn new) a,
          Some (mm\<lparr>modules := pre @ new # post\<rparr>),
          t1 @ [Call (exit_fn old) a, Dlclose (dlhandler old),
                Store (pre @ new # post), Call (init_fn new) a])"
  with open_module_Inr [OF op]
  show ?thesis by (simp add: events_def)
qed

section \<open>Loading a directory\<close>

lemma init_all_loop_step:
  "init_all_loop pf mmp a (f # rest) tr =
     (if candidate f then
        (case micro_module_init pf mmp (fts_path f) a tr of
           (err, mmp', tr') \<Rightarrow>
             if err \<noteq> MICRO_MODULE_OK then (err, mmp', tr')
             else init_all_loop pf mmp' a rest tr')
      else init_all_loop pf mmp a rest tr)"
  by (auto simp: candidate_def)

lemma init_all_loop_candidates:
  "init_all_loop pf mmp a walk tr =
     load_paths_in_order pf mmp a (map fts_path (filter candidate walk)) tr"
proof (induction walk arbitrary: mmp tr)
  case Nil
  show ?case by simp
next
  case (Cons f rest)
  show ?case
    unfolding init_all_loop_step
    by (simp add: Cons.IH split: prod.splits)
qed

lemma load_paths_in_order_step:
  "load_paths_in_order pf mmp a (p # ps) tr =
     (if status (micro_module_init pf mmp p a tr) \<noteq> MICRO_MODULE_OK
      then micro_module_init pf mmp p a tr
      else load_paths_in_order pf (fst (snd (micro_module_init pf mmp p a tr))) a ps
             (events (micro_module_init pf mmp p a tr)))"
  by (simp add: status_def events_def split: prod.splits)

declare load_paths_in_order.simps(2) [simp del]

lemma load_paths_in_order_append:
  "load_paths_in_order pf mmp a (ps @ qs) tr =
     (if status (load_paths_in_order pf mmp a ps tr) \<noteq> MICRO_MODULE_OK
      then load_paths_in_order pf mmp a ps tr
      else load_paths_in_order pf (fst (snd (load_paths_in_order pf mmp a ps tr))) a qs
             (events (load_paths_in_order pf mmp a ps tr)))"
  by (induction ps arbitrary: mmp tr)
     (simp_all add: load_paths_in_order_step status_def events_def)

lemma load_paths_in_order_unique:
  "names_unique (entries mmp) \<Longrightarrow>
   names_unique (registry (load_paths_in_order pf mmp a ps tr))"
proof (induction ps arbitrary: mmp tr)
  case Nil
  then show ?case by (simp add: registry_def)
next
  case (Cons p ps)
  let ?out = "micro_module_init pf mmp p a tr"
  have one: "names_unique (registry ?out)"
    using Cons.prems by (rule micro_module_init_unique)
  show ?case
  proof (cases "status ?out \<noteq> MICRO_MODULE_OK")
    case True
    with one show ?thesis by (simp add: load_paths_in_order_step)
  next
    case False
    from one have "names_unique (entries (fst (snd ?out)))" by (simp add: registry_def)
    from Cons.IH [OF this, of "events ?out"] False
    show ?thesis by (simp add: load_paths_in_order_step)
  qed
qed

lemma micro_module_init_all_walk:
  "fts_open pf tr dir = Some walk \<Longrightarrow>
   micro_module_init_all pf (Some mm) dir a tr =
     (case load_paths_in_order pf (Some mm) a (map fts_path (filter candidate walk))
             (tr @ [Fts_open dir]) of
        (err, mmp', tr') \<Rightarrow>
          if fts_close pf tr' < 0 \<and> err = MICRO_MODULE_OK
          then (MICRO_MODULE_ERROR_CLOSE_MODULES_DIR, mmp', tr' @ [Fts_close])
          else (err, mmp', tr' @ [Fts_close]))"
  by (simp add: micro_module_init_all_def init_all_loop_candidates)

lemma micro_module_init_all_unique:
  assumes "names_unique (entries mmp)"
  shows "names_unique (registry (micro_module_init_all pf mmp d a tr))"
proof (cases mmp)
  case None
  then show ?thesis by (simp add: micro_module_init_all_def registry_def entries_def names_unique_def)
next
  case (Some mm)
  show ?thesis
  proof (cases "fts_open pf tr d")
    case None
    with Some assms show ?thesis by (simp add: micro_module_init_all_def registry_def)
  next
    case (Some walk)
    let ?lp = "load_paths_in_order pf (Some mm) a (map fts_path (filter candidate walk))
                 (tr @ [Fts_open d])"
    obtain err p t where lp: "?lp = (err, p, t)" by (cases ?lp) auto
    have "names_unique (registry ?lp)"
      using assms \<open>mmp = Some mm\<close> by (simp add: load_paths_in_order_unique)
    with lp have "names_unique (entries p)" by (simp add: registry_def)
    then show ?thesis
      using \<open>mmp = Some mm\<close> lp
      by (simp add: micro_module_init_all_walk [OF Some] registry_def)
  qed
qed

lemma micro_module_init_ok_on_empty:
  assumes "modules mm = []"
    and "micro_module_init pf (Some mm) p a tr = (MICRO_MODULE_OK, mmp', tr')"
  shows "\<exists>new t1. open_module pf mm p tr = (Inr new, t1) \<and> mmp' = Some (mm\<lparr>modules := [new]\<rparr>)"
proof (rule micro_module_init_cases [of pf mm p tr a])
  fix err t1
  assume op: "open_module pf mm p tr = (Inl err, t1)"
    and "micro_module_init pf (Some mm) p a tr = (err, Some mm, t1)"
  with assms(2) open_module_Inl_nonzero [OF op] show ?thesis by simp
next
  fix new t1
  assume "micro_module_init pf (Some mm) p a tr =
            (MICRO_MODULE_ERROR_ALLOCATING_MEMORY, Some mm, t1)"
  with assms(2) show ?thesis by (simp add: status_defs)
next
  fix new t1
  assume "open_module pf mm p tr = (Inr new, t1)"
    and "micro_module_init pf (Some mm) p a tr =
         (call pf (t1 @ [Store (new # modules mm)]) (init_fn new) a,
          Some (mm\<lparr>modules := new # modules mm\<rparr>),
          t1 @ [Store (new # modules mm), Call (init_fn new) a])"
  with assms show ?thesis by simp
next
  fix pre :: "MicroModuleEntry list" and old post
  assume "modules mm = pre @ old # post"
  with assms(1) show ?thesis by simp
next
  fix pre :: "MicroModuleEntry list" and old post
  assume "modules mm = pre @ old # post"
  with assms(1) show ?thesis by simp
qed

lemma load_paths_in_order_first_failure:
  assumes "load_paths_in_order pf mmp a ps tr = (MICRO_MODULE_OK, mmp1, tr1)"
    and "micro_module_init pf mmp1 p a tr1 = (err, mmp2, tr2)"
    and "err \<noteq> MICRO_MODULE_OK"
  shows "load_paths_in_order pf mmp a (ps @ p # qs) tr = (err, mmp2, tr2)"
  using assms
  by (simp add: load_paths_in_order_append load_paths_in_order_step status_def events_def)

lemma micro_module_init_all_first_failure:
  assumes "fts_open pf tr dir = Some walk"
    and "map fts_path (filter candidate walk) = ps @ p # qs"
    and "load_paths_in_order pf (Some mm) a ps (tr @ [Fts_open dir]) = (MICRO_MODULE_OK, mmp1, tr1)"
    and "micro_module_init pf mmp1 p a tr1 = (err, mmp2, tr2)"
    and "err \<noteq> MICRO_MODULE_OK"
  shows "micro_module_init_all pf (Some mm) dir a tr = (err, mmp2, tr2 @ [Fts_close])"
  using load_paths_in_order_first_failure [OF assms(3,4,5), of qs] assms(2,5)
  by (simp add: micro_module_init_all_walk [OF assms(1)])

lemma second_of_three_fails:
  assumes "fts_open pf tr dir = Some walk"
    and "map fts_path (filter candidate walk) = [pa, pb, pc]"
    and "modules mm = []"
    and "micro_module_init pf (Some mm) pa a (tr @ [Fts_open dir]) = (MICRO_MODULE_OK, Some mmA, trA)"
    and "open_module pf mmA pb trA = (Inl err, trB)"
    and "pc \<noteq> pa" and "pc \<noteq> pb"
  shows "micro_module_init_all pf (Some mm) dir a tr = (err, Some mmA, trB @ [Fts_close]) \<and>
         (\<exists>A t1. open_module pf mm pa (tr @ [Fts_open dir]) = (Inr A, t1) \<and> modules mmA = [A]) \<and>
         (\<forall>ns. Dlmopen ns pc \<notin> set (drop (length tr) (trB @ [Fts_close])))"
proof (intro conjI)
  have first: "load_paths_in_order pf (Some mm) a [pa] (tr @ [Fts_open dir]) =
                 (MICRO_MODULE_OK, Some mmA, trA)"
    using assms(4) by (simp add: load_paths_in_order_step status_def events_def)
  have second: "micro_module_init pf (Some mmA) pb a trA = (err, Some mmA, trB)"
    using assms(5) by (rule micro_module_init_open_failed)
  have ne: "err \<noteq> MICRO_MODULE_OK"
    using assms(5) by (rule open_module_Inl_nonzero)
  have split: "map fts_path (filter candidate walk) = [pa] @ pb # [pc]"
    using assms(2) by simp
  show "micro_module_init_all pf (Some mm) dir a tr = (err, Some mmA, trB @ [Fts_close])"
    by (rule micro_module_init_all_first_failure [OF assms(1) split first second ne])
  from micro_module_init_ok_on_empty [OF assms(3,4)]
  show "\<exists>A t1. open_module pf mm pa (tr @ [Fts_open dir]) = (Inr A, t1) \<and> modules mmA = [A]"
    by auto
  from micro_module_init_events [of pf mm pa a "tr @ [Fts_open dir]"] assms(4)
  obtain evsA where trA: "trA = (tr @ [Fts_open dir]) @ evsA"
    and onlyA: "\<forall>ns g. Dlmopen ns g \<in> set evsA \<longrightarrow> g = pa"
    by (auto simp: events_def)
  from open_module_events [of pf mmA pb trA "[]" a] assms(5)
  obtain evsB where trB: "trB = trA @ evsB"
    and onlyB: "\<forall>ns g. Dlmopen ns g \<in> set evsB \<longrightarrow> g = pb"
    by auto
  have "drop (length tr) (trB @ [Fts_close]) = Fts_open dir # evsA @ evsB @ [Fts_close]"
    using trA trB by simp
  with onlyA onlyB assms(6,7)
  show "\<forall>ns. Dlmopen ns pc \<notin> set (drop (length tr) (trB @ [Fts_close]))"
    by auto
qed

lemma sample_walk:
  "map fts_path (filter candidate
     [\<lparr> fts_info = FTS_D, fts_level = 0, fts_path = ''plugins'' \<rparr>,
      \<lparr> fts_info = FTS_F, fts_level = 1, fts_path = ''plugins/alpha.so'' \<rparr>,
      \<lparr> fts_info = FTS_F, fts_level = 1, fts_path = ''plugins/beta.so'' \<rparr>,
      \<lparr> fts_info = FTS_F, fts_level = 1, fts_path = ''plugins/gamma.so'' \<rparr>,
      \<lparr> fts_info = FTS_DP, fts_level = 0, fts_path = ''plugins'' \<rparr>]) =
   [''plugins/alpha.so'', ''plugins/beta.so'', ''plugins/gamma.so'']"
  by (simp add: candidate_def)

lemma sample_fts_open:
  "fts_open sample_platform [] ''plugins'' =
     Some [\<lparr> fts_info = FTS_D, fts_level = 0, fts_path = ''plugins'' \<rparr>,
      \<lparr> fts_info = FTS_F, fts_level = 1, fts_path = ''plugins/alpha.so'' \<rparr>,
      \<lparr> fts_info = FTS_F, fts_level = 1, fts_path = ''plugins/beta.so'' \<rparr>,
      \<lparr> fts_info = FTS_F, fts_level = 1, fts_path = ''plugins/gamma.so'' \<rparr>,
      \<lparr> fts_info = FTS_DP, fts_level = 0, fts_path = ''plugins'' \<rparr>]"
  by (simp add: sample_platform_def)

lemma sample_load_alpha:
  "micro_module_init sample_platform (Some sample_mm) ''plugins/alpha.so'' 0
       ([] @ [Fts_open ''plugins'']) =
     (MICRO_MODULE_OK, Some (sample_mm\<lparr>modules := [alpha]\<rparr>),
      [Fts_open ''plugins'', Dlmopen True ''plugins/alpha.so'', Dlsym 1 ''micro_module_init'',
       Dlsym 1 ''micro_module_exit'', Dlsym 1 ''micro_module_name'', Store [alpha],
       Call 11 0])"
  by (simp add: micro_module_init_def open_module_def register_module_def push_module_def
        sample_defs MICRO_MODULE_OK_def)

lemma sample_open_beta:
  "open_module sample_platform (sample_mm\<lparr>modules := [alpha]\<rparr>) ''plugins/beta.so''
      [Fts_open ''plugins'', Dlmopen True ''plugins/alpha.so'', Dlsym 1 ''micro_module_init'',
       Dlsym 1 ''micro_module_exit'', Dlsym 1 ''micro_module_name'', Store [alpha],
       Call 11 0] =
     (Inl MICRO_MODULE_ERROR_LOCATING_EXIT_SYMBOL,
      [Fts_open ''plugins'', Dlmopen True ''plugins/alpha.so'', Dlsym 1 ''micro_module_init'',
       Dlsym 1 ''micro_module_exit'', Dlsym 1 ''micro_module_name'', Store [alpha],
       Call 11 0, Dlmopen True ''plugins/beta.so'', Dlsym 2 ''micro_module_init'',
       Dlsym 2 ''micro_module_exit'', Dlclose 2])"
  by (simp add: open_module_def sample_defs)

text \<open>Claim C5. (1) \<^verbatim>\<open>micro_module_init_all\<close> applies \<^verbatim>\<open>micro_module_init\<close> to the paths of
  the candidate entries of the walk, in the order of the walk, as \<open>load_paths_in_order\<close>
  does, and then closes the walk. (2) When the paths before \<open>p\<close> have loaded and the load
  of \<open>p\<close> returns a status other than OK, the operation returns that status with the
  registry and the trace as that load left them (plus \<^verbatim>\<open>fts_close\<close>), whatever paths \<open>qs\<close>
  follow. (3) With three candidate paths A, B, C, an empty registry, A loading and B
  failing in \<open>open_module\<close> (its symbols do not resolve), the operation returns the status
  of B, the registry holds the module of A and nothing else, and \<^verbatim>\<open>dlmopen\<close> has not been
  called on C.\<close>

theorem init_all_loads_in_order_until_first_failure:
  "(fts_open pf tr dir = Some walk \<longrightarrow>
      micro_module_init_all pf (Some mm) dir a tr =
        (case load_paths_in_order pf (Some mm) a (map fts_path (filter candidate walk))
                (tr @ [Fts_open dir]) of
           (err, mmp', tr') \<Rightarrow>
             if fts_close pf tr' < 0 \<and> err = MICRO_MODULE_OK
             then (MICRO_MODULE_ERROR_CLOSE_MODULES_DIR, mmp', tr' @ [Fts_close])
             else (err, mmp', tr' @ [Fts_close]))) \<and>
   (fts_open pf tr dir = Some walk \<and>
    map fts_path (filter candidate walk) = ps @ p # qs \<and>
    load_paths_in_order pf (Some mm) a ps (tr @ [Fts_open dir]) = (MICRO_MODULE_OK, mmp1, tr1) \<and>
    micro_module_init pf mmp1 p a tr1 = (err, mmp2, tr2) \<and>
    err \<noteq> MICRO_MODULE_OK \<longrightarrow>
      micro_module_init_all pf (Some mm) dir a tr = (err, mmp2, tr2 @ [Fts_close])) \<and>
   (fts_open pf tr dir = Some walk \<and>
    map fts_path (filter candidate walk) = [pa, pb, pc] \<and>
    modules mm = [] \<and>
    micro_module_init pf (Some mm) pa a (tr @ [Fts_open dir]) = (MICRO_MODULE_OK, Some mmA, trA) \<and>
    open_module pf mmA pb trA = (Inl errB, trB) \<and>
    pc \<noteq> pa \<and> pc \<noteq> pb \<longrightarrow>
      micro_module_init_all pf (Some mm) dir a tr = (errB, Some mmA, trB @ [Fts_close]) \<and>
      (\<exists>A t1. open_module pf mm pa (tr @ [Fts_open dir]) = (Inr A, t1) \<and> modules mmA = [A]) \<and>
      (\<forall>ns. Dlmopen ns pc \<notin> set (drop (length tr) (trB @ [Fts_close]))))"
proof (intro conjI impI)
  assume "fts_open pf tr dir = Some walk"
  then show "micro_module_init_all pf (Some mm) dir a tr =
        (case load_paths_in_order pf (Some mm) a (map fts_path (filter candidate walk))
                (tr @ [Fts_open dir]) of
           (err, mmp', tr') \<Rightarrow>
             if fts_close pf tr' < 0 \<and> err = MICRO_MODULE_OK
             then (MICRO_MODULE_ERROR_CLOSE_MODULES_DIR, mmp', tr' @ [Fts_close])
             else (err, mmp', tr' @ [Fts_close]))"
    by (rule micro_module_init_all_walk)
next
  assume "fts_open pf tr dir = Some walk \<and>
    map fts_path (filter candidate walk) = ps @ p # qs \<and>
    load_paths_in_order pf (Some mm) a ps (tr @ [Fts_open dir]) = (MICRO_MODULE_OK, mmp1, tr1) \<and>
    micro_module_init pf mmp1 p a tr1 = (err, mmp2, tr2) \<and>
    err \<noteq> MICRO_MODULE_OK"
  then show "micro_module_init_all pf (Some mm) dir a tr = (err, mmp2, tr2 @ [Fts_close])"
    by (blast intro: micro_module_init_all_first_failure)
next
  assume h: "fts_open pf tr dir = Some walk \<and>
    map fts_path (filter candidate walk) = [pa, pb, pc] \<and>
    modules mm = [] \<and>
    micro_module_init pf (Some mm) pa a (tr @ [Fts_open dir]) = (MICRO_MODULE_OK, Some mmA, trA) \<and>
    open_module pf mmA pb trA = (Inl errB, trB) \<and>
    pc \<noteq> pa \<and> pc \<noteq> pb"
  from h have s: "micro_module_init_all pf (Some mm) dir a tr = (errB, Some mmA, trB @ [Fts_close]) \<and>
      (\<exists>A t1. open_module pf mm pa (tr @ [Fts_open dir]) = (Inr A, t1) \<and> modules mmA = [A]) \<and>
      (\<forall>ns. Dlmopen ns pc \<notin> set (drop (length tr) (trB @ [Fts_close])))"
    by (intro second_of_three_fails) blast+
  from s show "micro_module_init_all pf (Some mm) dir a tr = (errB, Some mmA, trB @ [Fts_close])"
    by blast
  from s show "\<exists>A t1. open_module pf mm pa (tr @ [Fts_open dir]) = (Inr A, t1) \<and> modules mmA = [A]"
    by blast
  from s show "\<forall>ns. Dlmopen ns pc \<notin> set (drop (length tr) (trB @ [Fts_close]))"
    by blast
qed

theorem init_all_loads_in_order_until_first_failure_witness:
  "modules sample_mm = [] \<and>
   micro_module_init_all sample_platform (Some sample_mm) ''plugins'' 0 [] =
     (MICRO_MODULE_ERROR_LOCATING_EXIT_SYMBOL, Some (sample_mm\<lparr>modules := [alpha]\<rparr>),
      [Fts_open ''plugins'', Dlmopen True ''plugins/alpha.so'', Dlsym 1 ''micro_module_init'',
       Dlsym 1 ''micro_module_exit'', Dlsym 1 ''micro_module_name'', Store [alpha],
       Call 11 0, Dlmopen True ''plugins/beta.so'', Dlsym 2 ''micro_module_init'',
       Dlsym 2 ''micro_module_exit'', Dlclose 2, Fts_close])"
proof -
  have h3: "modules sample_mm = []" by (simp add: sample_defs)
  have h6: "''plugins/gamma.so'' \<noteq> ''plugins/alpha.so''"
    and h7: "''plugins/gamma.so'' \<noteq> ''plugins/beta.so''" by simp_all
  note t = init_all_loads_in_order_until_first_failure
         [where pf = sample_platform and tr = "[]" and dir = "''plugins''" and mm = sample_mm
            and a = 0 and pa = "''plugins/alpha.so''" and pb = "''plugins/beta.so''"
            and pc = "''plugins/gamma.so''" and mmA = "sample_mm\<lparr>modules := [alpha]\<rparr>"
            and errB = MICRO_MODULE_ERROR_LOCATING_EXIT_SYMBOL,
          THEN conjunct2, THEN conjunct2, THEN mp, THEN conjunct1]
  have "micro_module_init_all sample_platform (Some sample_mm) ''plugins'' 0 [] =
     (MICRO_MODULE_ERROR_LOCATING_EXIT_SYMBOL, Some (sample_mm\<lparr>modules := [alpha]\<rparr>),
      [Fts_open ''plugins'', Dlmopen True ''plugins/alpha.so'', Dlsym 1 ''micro_module_init'',
       Dlsym 1 ''micro_module_exit'', Dlsym 1 ''micro_module_name'', Store [alpha],
       Call 11 0, Dlmopen True ''plugins/beta.so'', Dlsym 2 ''micro_module_init'',
       Dlsym 2 ''micro_module_exit'', Dlclose 2] @ [Fts_close])"
    by (rule t) (rule conjI sample_fts_open sample_walk h3 sample_load_alpha sample_open_beta h6 h7)+
  with h3 show ?thesis by simp
qed

section \<open>The registry invariant\<close>

lemma micro_module_exit_all_unique:
  assumes "names_unique (entries mmp)"
  shows "names_unique (registry (micro_module_exit_all pf mmp a tr))"
proof (cases mmp)
  case None
  then show ?thesis by (simp add: micro_module_exit_all_def registry_def entries_def names_unique_def)
next
  case (Some mm)
  let ?lp = "exit_all_loop pf (Some mm) a (modules mm) tr"
  obtain err p t where lp: "?lp = (err, p, t)" by (cases ?lp) auto
  have "names_unique (registry ?lp)"
    using assms Some by (simp add: exit_all_loop_unique)
  with lp have "names_unique (entries p)" by (simp add: registry_def)
  then show ?thesis
    using Some lp
    by (cases p) (simp_all add: micro_module_exit_all_def registry_def entries_def
                     names_unique_def)
qed

text \<open>Claim C8. \<^verbatim>\<open>micro_module_setup\<close> starts with a registry of unique names, and each of
  \<^verbatim>\<open>micro_module_init\<close>, \<^verbatim>\<open>micro_module_init_all\<close>, \<^verbatim>\<open>micro_module_exit\<close> and
  \<^verbatim>\<open>micro_module_exit_all\<close> leaves the names unique when it found them unique, whatever
  status it returns. \<^verbatim>\<open>micro_module_init\<close> either keeps the list of names as it is (it
  replaces in place) or puts one name in front that was not in the list;
  \<^verbatim>\<open>micro_module_exit\<close> either keeps the registry or takes exactly one entry out.\<close>

theorem names_stay_unique:
  "names_unique (modules (micro_module_setup name_sym init_sym exit_sym new_ns)) \<and>
   (names_unique (entries mmp) \<longrightarrow>
      names_unique (registry (micro_module_init pf mmp f a tr)) \<and>
      names_unique (registry (micro_module_init_all pf mmp d a tr)) \<and>
      names_unique (registry (micro_module_exit pf mmp nm a tr)) \<and>
      names_unique (registry (micro_module_exit_all pf mmp a tr))) \<and>
   (map name (registry (micro_module_init pf mmp f a tr)) = map name (entries mmp) \<or>
    (\<exists>n. n \<notin> name ` set (entries mmp) \<and>
         map name (registry (micro_module_init pf mmp f a tr)) = n # map name (entries mmp))) \<and>
   (registry (micro_module_exit pf mmp nm a tr) = entries mmp \<or>
    (\<exists>pre e post. entries mmp = pre @ e # post \<and>
       registry (micro_module_exit pf mmp nm a tr) = pre @ post))"
proof (intro conjI impI)
  show "names_unique (modules (micro_module_setup name_sym init_sym exit_sym new_ns))"
    by (simp add: micro_module_setup_def names_unique_def)
next
  assume u: "names_unique (entries mmp)"
  show "names_unique (registry (micro_module_init pf mmp f a tr))"
    using u by (rule micro_module_init_unique)
  show "names_unique (registry (micro_module_init_all pf mmp d a tr))"
    using u by (rule micro_module_init_all_unique)
  show "names_unique (registry (micro_module_exit pf mmp nm a tr))"
    using u by (rule micro_module_exit_unique)
  show "names_unique (registry (micro_module_exit_all pf mmp a tr))"
    using u by (rule micro_module_exit_all_unique)
next
  show "map name (registry (micro_module_init pf mmp f a tr)) = map name (entries mmp) \<or>
    (\<exists>n. n \<notin> name ` set (entries mmp) \<and>
         map name (registry (micro_module_init pf mmp f a tr)) = n # map name (entries mmp))"
    by (rule micro_module_init_names)
next
  show "registry (micro_module_exit pf mmp nm a tr) = entries mmp \<or>
    (\<exists>pre e post. entries mmp = pre @ e # post \<and>
       registry (micro_module_exit pf mmp nm a tr) = pre @ post)"
    by (rule micro_module_exit_removes_at_most_one)
qed

theorem names_stay_unique_witness:
  "names_unique (entries (Some (sample_mm\<lparr>modules := [gamma, alpha]\<rparr>))) \<and>
   names_unique (registry (micro_module_init sample_platform
      (Some (sample_mm\<lparr>modules := [gamma, alpha]\<rparr>)) ''plugins/alpha.so'' 0 [])) \<and>
   names_unique (registry (micro_module_init_all sample_platform
      (Some (sample_mm\<lparr>modules := [gamma, alpha]\<rparr>)) ''plugins'' 0 [])) \<and>
   names_unique (registry (micro_module_exit sample_platform
      (Some (sample_mm\<lparr>modules := [gamma, alpha]\<rparr>)) (Some ''alpha'') 0 [])) \<and>
   names_unique (registry (micro_module_exit_all sample_platform
      (Some (sample_mm\<lparr>modules := [gamma, alpha]\<rparr>)) 0 []))"
proof -
  have h: "names_unique (entries (Some (sample_mm\<lparr>modules := [gamma, alpha]\<rparr>)))"
    by (simp add: names_unique_def entries_def sample_defs)
  from names_stay_unique
         [where mmp = "Some (sample_mm\<lparr>modules := [gamma, alpha]\<rparr>)" and pf = sample_platform
            and f = "''plugins/alpha.so''" and a = 0 and tr = "[]" and d = "''plugins''"
            and nm = "Some ''alpha''"] h
  show ?thesis by blast
qed

section \<open>Exit before close\<close>

lemma micro_module_exit_all_events:
  "\<exists>evs. events (micro_module_exit_all pf mmp a tr) = tr @ evs \<and>
         (\<forall>prev. closes_follow_exit (entries mmp) a None prev evs)"
proof (cases mmp)
  case None
  then show ?thesis by (simp add: micro_module_exit_all_def events_def)
next
  case (Some mm)
  let ?lp = "exit_all_loop pf (Some mm) a (modules mm) tr"
  from exit_all_loop_events [of pf "Some mm" a "modules mm" tr] obtain evs
    where ev: "events ?lp = tr @ evs"
      and ord: "\<forall>prev. closes_follow_exit (entries (Some mm)) a None prev evs" by blast
  obtain err p t where lp: "?lp = (err, p, t)" by (cases ?lp) auto
  show ?thesis
  proof (cases "err \<noteq> MICRO_MODULE_OK")
    case True
    then have "micro_module_exit_all pf mmp a tr = ?lp"
      using Some lp by (simp add: micro_module_exit_all_def)
    with ev ord Some show ?thesis by auto
  next
    case False
    then have "events (micro_module_exit_all pf mmp a tr) = tr @ (evs @ [Store []])"
      using Some ev lp
      by (simp add: micro_module_exit_all_def events_def)
    moreover have "\<forall>prev. closes_follow_exit (entries mmp) a None prev (evs @ [Store []])"
      using ord Some by (simp add: closes_follow_exit_append)
    ultimately show ?thesis by blast
  qed
qed

lemma micro_module_init_reload_events:
  assumes "open_module pf mm f tr = (Inr new, t1)"
    and "find (\<lambda>x. name x = name new) (modules mm) = Some old"
  shows "t1 = tr @ [Dlmopen (use_new_namespace mm) f,
                    Dlsym (dlhandler new) (init_fn_symbol mm),
                    Dlsym (dlhandler new) (exit_fn_symbol mm),
                    Dlsym (dlhandler new) (name_symbol mm)] \<and>
         (\<exists>rest. events (micro_module_init pf (Some mm) f a tr) =
                   t1 @ Call (exit_fn old) a # Dlclose (dlhandler old) # rest \<and>
                 (rest = [Dlclose (dlhandler new)] \<or>
                  (\<exists>ms. rest = [Store ms, Call (init_fn new) a])))"
proof -
  from find_first_split [OF assms(2)] obtain pre post
    where ms: "modules mm = pre @ old # post" and old: "name old = name new"
      and pre: "\<forall>x\<in>set pre. name x \<noteq> name new" by blast
  show ?thesis
  proof (cases "dlclose pf (t1 @ [Call (exit_fn old) a]) (dlhandler old) \<noteq> 0")
    case True
    with micro_module_init_registered [OF assms(1) ms pre old, of a] open_module_Inr [OF assms(1)]
    show ?thesis by (simp add: events_def)
  next
    case False
    with micro_module_init_registered [OF assms(1) ms pre old, of a] open_module_Inr [OF assms(1)]
    show ?thesis by (simp add: events_def)
  qed
qed

lemma closes_follow_exit_sample:
  "closes_follow_exit [gamma, alpha] 0 None None [Call 12 0, Dlclose 1, Store [gamma]] \<and>
   \<not> closes_follow_exit [gamma, alpha] 0 None None [Dlclose 1, Call 12 0, Store [gamma]] \<and>
   \<not> closes_follow_exit [gamma, alpha] 0 None None [Call 32 0, Dlclose 1] \<and>
   closes_follow_exit [gamma, alpha] 0 (Some 1) None
     [Dlmopen False ''plugins/alpha.so'', Dlsym 1 ''micro_module_init'', Dlclose 1] \<and>
   closes_follow_exit [gamma, alpha] 0 (Some 1) None
     [Call 12 0, Dlclose 1, Dlclose 1] \<and>
   \<not> closes_follow_exit [gamma, alpha] 0 (Some 1) None
     [Dlclose 1, Call 12 0, Store [gamma, alpha], Call 11 0] \<and>
   \<not> closes_follow_exit [gamma, alpha] 0 (Some 1) None
     [Dlmopen False ''plugins/alpha.so'', Dlclose 1, Store [gamma, alpha], Call 11 0]"
  by (simp add: sample_defs)

text \<open>Claim C9. In the events that a single unload, a load (which reloads when the name is
  registered) and a bulk unload add to the trace, every \<^verbatim>\<open>dlclose\<close> of a registered
  module's handle comes directly after the call of that module's exit function has
  returned. The only \<^verbatim>\<open>dlclose\<close> without an exit call before it is the one by which
  \<^verbatim>\<open>micro_module_init\<close> gives up the handle it has just opened, and it is the last event of
  that call. A reload is pinned event by event: after the \<^verbatim>\<open>dlmopen\<close> and the three
  \<^verbatim>\<open>dlsym\<close> come the call of the old entry's exit function, then the close of the old
  entry's handle, and then either the close of the new handle (the old close has failed)
  or the write of the new module and the call of its init function. This holds also when
  the loader returns the handle that is already registered.\<close>

theorem handle_closed_only_after_exit:
  "(\<exists>evs. events (micro_module_exit pf mmp nm a tr) = tr @ evs \<and>
          closes_follow_exit (entries mmp) a None None evs) \<and>
   (\<exists>evs. events (micro_module_init pf (Some mm) f a tr) = tr @ evs \<and>
          closes_follow_exit (modules mm) a (dlmopen pf tr (use_new_namespace mm) f) None evs) \<and>
   (open_module pf mm f tr = (Inr new, t1) \<and>
    find (\<lambda>x. name x = name new) (modules mm) = Some old \<longrightarrow>
      t1 = tr @ [Dlmopen (use_new_namespace mm) f,
                 Dlsym (dlhandler new) (init_fn_symbol mm),
                 Dlsym (dlhandler new) (exit_fn_symbol mm),
                 Dlsym (dlhandler new) (name_symbol mm)] \<and>
      (\<exists>rest. events (micro_module_init pf (Some mm) f a tr) =
                t1 @ Call (exit_fn old) a # Dlclose (dlhandler old) # rest \<and>
              (rest = [Dlclose (dlhandler new)] \<or>
               (\<exists>ms. rest = [Store ms, Call (init_fn new) a])))) \<and>
   (\<exists>evs. events (micro_module_exit_all pf mmp a tr) = tr @ evs \<and>
          closes_follow_exit (entries mmp) a None None evs)"
proof (intro conjI impI)
  show "\<exists>evs. events (micro_module_exit pf mmp nm a tr) = tr @ evs \<and>
          closes_follow_exit (entries mmp) a None None evs"
    using micro_module_exit_events [of pf mmp nm a tr] by blast
  show "\<exists>evs. events (micro_module_init pf (Some mm) f a tr) = tr @ evs \<and>
          closes_follow_exit (modules mm) a (dlmopen pf tr (use_new_namespace mm) f) None evs"
    using micro_module_init_events [of pf mm f a tr] by blast
  show "\<exists>evs. events (micro_module_exit_all pf mmp a tr) = tr @ evs \<and>
          closes_follow_exit (entries mmp) a None None evs"
    using micro_module_exit_all_events [of pf mmp a tr] by blast
next
  assume h: "open_module pf mm f tr = (Inr new, t1) \<and>
    find (\<lambda>x. name x = name new) (modules mm) = Some old"
  then have o: "open_module pf mm f tr = (Inr new, t1)"
    and r: "find (\<lambda>x. name x = name new) (modules mm) = Some old" by simp_all
  note re = micro_module_init_reload_events [OF o r, of a]
  from re show "t1 = tr @ [Dlmopen (use_new_namespace mm) f,
                 Dlsym (dlhandler new) (init_fn_symbol mm),
                 Dlsym (dlhandler new) (exit_fn_symbol mm),
                 Dlsym (dlhandler new) (name_symbol mm)]"
    by (rule conjunct1)
  from re show "\<exists>rest. events (micro_module_init pf (Some mm) f a tr) =
                t1 @ Call (exit_fn old) a # Dlclose (dlhandler old) # rest \<and>
              (rest = [Dlclose (dlhandler new)] \<or>
               (\<exists>ms. rest = [Store ms, Call (init_fn new) a]))"
    by (rule conjunct2)
qed

lemma shared_reopen_alpha:
  "open_module shared_platform (base_mm\<lparr>modules := [gamma, alpha]\<rparr>) ''plugins/alpha.so'' [] =
     (Inr alpha,
      [Dlmopen False ''plugins/alpha.so'', Dlsym 1 ''micro_module_init'',
       Dlsym 1 ''micro_module_exit'', Dlsym 1 ''micro_module_name''])"
  by (simp add: open_module_def sample_defs)

lemma shared_find_alpha:
  "find (\<lambda>x. name x = name alpha) (modules (base_mm\<lparr>modules := [gamma, alpha]\<rparr>)) = Some alpha"
  by (simp add: sample_defs)

lemma shared_reload_alpha:
  "micro_module_init shared_platform (Some (base_mm\<lparr>modules := [gamma, alpha]\<rparr>))
       ''plugins/alpha.so'' 0 [] =
     (MICRO_MODULE_OK, Some (base_mm\<lparr>modules := [gamma, alpha]\<rparr>),
      [Dlmopen False ''plugins/alpha.so'', Dlsym 1 ''micro_module_init'',
       Dlsym 1 ''micro_module_exit'', Dlsym 1 ''micro_module_name'',
       Call 12 0, Dlclose 1, Store [gamma, alpha], Call 11 0])"
  by (simp add: micro_module_init_def open_module_def register_module_def push_module_def
        sample_defs MICRO_MODULE_OK_def)

theorem handle_closed_only_after_exit_witness:
  "dlmopen shared_platform [] (use_new_namespace (base_mm\<lparr>modules := [gamma, alpha]\<rparr>))
       ''plugins/alpha.so'' = Some (dlhandler alpha) \<and>
   open_module shared_platform (base_mm\<lparr>modules := [gamma, alpha]\<rparr>) ''plugins/alpha.so'' [] =
     (Inr alpha,
      [Dlmopen False ''plugins/alpha.so'', Dlsym 1 ''micro_module_init'',
       Dlsym 1 ''micro_module_exit'', Dlsym 1 ''micro_module_name'']) \<and>
   find (\<lambda>x. name x = name alpha) (modules (base_mm\<lparr>modules := [gamma, alpha]\<rparr>)) = Some alpha \<and>
   events (micro_module_init shared_platform (Some (base_mm\<lparr>modules := [gamma, alpha]\<rparr>))
       ''plugins/alpha.so'' 0 []) =
     [Dlmopen False ''plugins/alpha.so'', Dlsym 1 ''micro_module_init'',
      Dlsym 1 ''micro_module_exit'', Dlsym 1 ''micro_module_name'',
      Call 12 0, Dlclose 1, Store [gamma, alpha], Call 11 0] \<and>
   closes_follow_exit [gamma, alpha] 0 (Some 1) None
     [Dlmopen False ''plugins/alpha.so'', Dlsym 1 ''micro_module_init'',
      Dlsym 1 ''micro_module_exit'', Dlsym 1 ''micro_module_name'',
      Call 12 0, Dlclose 1, Store [gamma, alpha], Call 11 0] \<and>
   (\<exists>rest. events (micro_module_init shared_platform
                (Some (base_mm\<lparr>modules := [gamma, alpha]\<rparr>)) ''plugins/alpha.so'' 0 []) =
             [Dlmopen False ''plugins/alpha.so'', Dlsym 1 ''micro_module_init'',
              Dlsym 1 ''micro_module_exit'', Dlsym 1 ''micro_module_name'']
             @ Call (exit_fn alpha) 0 # Dlclose (dlhandler alpha) # rest \<and>
           (rest = [Dlclose (dlhandler alpha)] \<or>
            (\<exists>ms. rest = [Store ms, Call (init_fn alpha) 0]))) \<and>
   (\<exists>evs. events (micro_module_exit shared_platform
               (Some (base_mm\<lparr>modules := [gamma, alpha]\<rparr>)) (Some ''alpha'') 0 []) = [] @ evs \<and>
          closes_follow_exit (entries (Some (base_mm\<lparr>modules := [gamma, alpha]\<rparr>))) 0
            None None evs) \<and>
   (\<exists>evs. events (micro_module_exit_all shared_platform
               (Some (base_mm\<lparr>modules := [gamma, alpha]\<rparr>)) 0 []) = [] @ evs \<and>
          closes_follow_exit (entries (Some (base_mm\<lparr>modules := [gamma, alpha]\<rparr>))) 0
            None None evs)"
proof -
  note t = handle_closed_only_after_exit
             [where pf = shared_platform and mmp = "Some (base_mm\<lparr>modules := [gamma, alpha]\<rparr>)"
                and mm = "base_mm\<lparr>modules := [gamma, alpha]\<rparr>" and nm = "Some ''alpha''"
                and a = 0 and tr = "[]" and f = "''plugins/alpha.so''" and new = alpha
                and old = alpha
                and ?t1.0 = "[Dlmopen False ''plugins/alpha.so'', Dlsym 1 ''micro_module_init'',
                          Dlsym 1 ''micro_module_exit'', Dlsym 1 ''micro_module_name'']"]
  have own: "dlmopen shared_platform [] (use_new_namespace (base_mm\<lparr>modules := [gamma, alpha]\<rparr>))
       ''plugins/alpha.so'' = Some (dlhandler alpha)"
    by (simp add: sample_defs)
  have ev: "events (micro_module_init shared_platform (Some (base_mm\<lparr>modules := [gamma, alpha]\<rparr>))
       ''plugins/alpha.so'' 0 []) =
     [Dlmopen False ''plugins/alpha.so'', Dlsym 1 ''micro_module_init'',
      Dlsym 1 ''micro_module_exit'', Dlsym 1 ''micro_module_name'',
      Call 12 0, Dlclose 1, Store [gamma, alpha], Call 11 0]"
    by (simp add: shared_reload_alpha events_def)
  have h: "dlhandler alpha = 1" "modules (base_mm\<lparr>modules := [gamma, alpha]\<rparr>) = [gamma, alpha]"
    by (simp_all add: sample_defs)
  from t [THEN conjunct2, THEN conjunct1] ev own h
  have ord: "closes_follow_exit [gamma, alpha] 0 (Some 1) None
     [Dlmopen False ''plugins/alpha.so'', Dlsym 1 ''micro_module_init'',
      Dlsym 1 ''micro_module_exit'', Dlsym 1 ''micro_module_name'',
      Call 12 0, Dlclose 1, Store [gamma, alpha], Call 11 0]"
    by (simp only: append_Nil) (elim exE conjE, simp)
  from t [THEN conjunct2, THEN conjunct2, THEN conjunct1] shared_reopen_alpha shared_find_alpha
  have rel: "\<exists>rest. events (micro_module_init shared_platform
                (Some (base_mm\<lparr>modules := [gamma, alpha]\<rparr>)) ''plugins/alpha.so'' 0 []) =
             [Dlmopen False ''plugins/alpha.so'', Dlsym 1 ''micro_module_init'',
              Dlsym 1 ''micro_module_exit'', Dlsym 1 ''micro_module_name'']
             @ Call (exit_fn alpha) 0 # Dlclose (dlhandler alpha) # rest \<and>
           (rest = [Dlclose (dlhandler alpha)] \<or>
            (\<exists>ms. rest = [Store ms, Call (init_fn alpha) 0]))"
    by blast
  from t [THEN conjunct1] t [THEN conjunct2, THEN conjunct2, THEN conjunct2]
    own shared_reopen_alpha shared_find_alpha ev ord rel
  show ?thesis by (intro conjI)
qed

end
